theory Spec2Isabelle
  imports Complex_Main "HOL-Library.AList"
begin

section \<open>Common data: jobs, events, decisions\<close>

text \<open>
  The five schedulers of the repository are separate translation units that share the
  shape of their data.  C++ \<open>double\<close> values are modelled as \<^typ>\<open>real\<close>
  (rounding is not modelled), \<open>uint8_t\<close>/\<open>uint32_t\<close>/\<open>size_t\<close> values as
  \<^typ>\<open>nat\<close> with the truncation written out where the source truncates, and a
  \<open>std::set<uint32_t>\<close> as the ascending list of its elements, which is the order in
  which the source iterates over it.
\<close>

record SchedJob =
  job_id :: string
  nb_hosts :: nat
  walltime :: real

datatype event =
    BatsimHello
  | SimulationBegins nat
  | JobSubmitted string nat real
  | JobCompleted string
  | AllStaticJobsHaveBeenSubmitted
  | OtherEvent

datatype decision =
    EDCHello string string
  | RejectJob string
  | ExecuteJob string "nat list"

text \<open>\<open>std::set::insert\<close> on the ascending list.\<close>

definition set_insert :: "nat \<Rightarrow> nat list \<Rightarrow> nat list" where
  "set_insert x xs = (if x \<in> set xs then xs else insort x xs)"

definition insert_all :: "nat list \<Rightarrow> nat list \<Rightarrow> nat list" where
  "insert_all hs xs = fold set_insert hs xs"

text \<open>\<open>uint8_t nb_hosts = resource_request()\<close> keeps the low eight bits.\<close>

definition to_uint8 :: "nat \<Rightarrow> nat" where
  "to_uint8 n = n mod 256"

text \<open>\<open>uint32_t - size_t\<close> is computed in \<open>size_t\<close> and wraps modulo \<open>2^64\<close>.\<close>

definition sub_size_t :: "nat \<Rightarrow> nat \<Rightarrow> nat" where
  "sub_size_t a b = (if b \<le> a then a - b else a + 2 ^ 64 - b)"

section \<open>EnergyBud (first unit of \<open>src/EnergyBud_IDLE.cpp\<close>)\<close>

record eb_state =
  mb :: "decision list"
  jobs :: "SchedJob list"
  running_jobs :: "string \<rightharpoonup> SchedJob"
  job_allocations :: "string \<rightharpoonup> nat list"
  platform_nb_hosts :: nat
  available_res :: "nat list"
  percentage_budget :: real
  max_energy_budget :: real
  energy_budget :: real
  energy_consumed :: real
  energy_available :: real
  last_energy_update_time :: real
  budget_start_time :: real
  reserved_energy :: real
  reserved_time_end :: real
  reserved_job_id :: string

definition power_per_host :: real where
  "power_per_host = 203.12"

definition idle_power_per_host :: real where
  "idle_power_per_host = 100.0"

definition monitoring_interval :: real where
  "monitoring_interval = 600.0"

text \<open>\<open>budget_period_duration\<close> is a global initialised to 600 that no statement assigns.\<close>

definition budget_period_duration :: real where
  "budget_period_duration = 600.0"

definition eb_init :: eb_state where
  "eb_init = \<lparr> mb = [], jobs = [], running_jobs = Map.empty, job_allocations = Map.empty,
     platform_nb_hosts = 0, available_res = [],
     percentage_budget = 1.0, max_energy_budget = 1500.8,
     energy_budget = 1500.8 * 1.0, energy_consumed = 0, energy_available = 0,
     last_energy_update_time = 0, budget_start_time = 0,
     reserved_energy = 0, reserved_time_end = 0, reserved_job_id = [] \<rparr>"

definition update_energy :: "real \<Rightarrow> eb_state \<Rightarrow> eb_state" where
  "update_energy current_time s =
     (if budget_start_time s = 0 then
        s\<lparr> budget_start_time := current_time,
           last_energy_update_time := current_time,
           energy_budget := max_energy_budget s * percentage_budget s,
           energy_available :=
             (max_energy_budget s * percentage_budget s) / budget_period_duration
               * monitoring_interval \<rparr>
      else
        let elapsed = current_time - last_energy_update_time s in
        if elapsed \<le> 0 then s
        else
          let energy_released = (energy_budget s / budget_period_duration) * elapsed;
              active_hosts = real (sub_size_t (platform_nb_hosts s) (length (available_res s)));
              estimated_consumption =
                (active_hosts * power_per_host
                   + real (length (available_res s)) * idle_power_per_host)
                  * (elapsed / 3600)
          in s\<lparr> energy_available := energy_available s + energy_released - estimated_consumption,
                energy_consumed := energy_consumed s + estimated_consumption,
                last_energy_update_time := current_time \<rparr>)"

definition has_enough_energy :: "eb_state \<Rightarrow> SchedJob \<Rightarrow> real \<Rightarrow> bool" where
  "has_enough_energy s job current_time =
     (let available =
            (if reserved_job_id s \<noteq> job_id job
             then energy_available s - reserved_energy s else energy_available s);
          required_energy = real (nb_hosts job) * power_per_host * (walltime job / 3600);
          future_available =
            available + (energy_budget s / budget_period_duration) * walltime job
      in required_energy \<le> future_available \<and> available \<ge> 0)"

definition can_backfill :: "eb_state \<Rightarrow> SchedJob \<Rightarrow> real \<Rightarrow> bool" where
  "can_backfill s job current_time =
     (current_time + walltime job \<le> reserved_time_end s \<or> reserved_job_id s = [])"

definition allocate_and_launch :: "SchedJob \<Rightarrow> real \<Rightarrow> eb_state \<Rightarrow> eb_state" where
  "allocate_and_launch job current_time s =
     (if length (available_res s) < nb_hosts job then s
      else
        let job_resources = take (nb_hosts job) (available_res s);
            required_energy = real (nb_hosts job) * power_per_host * (walltime job / 3600)
        in s\<lparr> available_res := drop (nb_hosts job) (available_res s),
              running_jobs := (running_jobs s)(job_id job \<mapsto> job),
              job_allocations := (job_allocations s)(job_id job \<mapsto> job_resources),
              energy_available := energy_available s - required_energy,
              mb := mb s @ [ExecuteJob (job_id job) job_resources] \<rparr>)"

definition reserve_for_first_job :: "SchedJob \<Rightarrow> real \<Rightarrow> eb_state \<Rightarrow> eb_state" where
  "reserve_for_first_job job current_time s =
     s\<lparr> reserved_energy := real (nb_hosts job) * power_per_host * (walltime job / 3600),
        reserved_time_end := current_time + walltime job,
        reserved_job_id := job_id job \<rparr>"

definition cancel_reservations :: "eb_state \<Rightarrow> eb_state" where
  "cancel_reservations s =
     (if reserved_job_id s \<noteq> [] then
        s\<lparr> reserved_energy := 0, reserved_time_end := 0, reserved_job_id := [] \<rparr>
      else s)"

text \<open>The event switch of \<open>batsim_edc_take_decisions\<close>.\<close>

fun eb_event :: "eb_state \<Rightarrow> event \<Rightarrow> eb_state" where
  "eb_event s BatsimHello = s\<lparr> mb := mb s @ [EDCHello ''EnergyBud'' ''1.0.0''] \<rparr>"
| "eb_event s (SimulationBegins n) =
     s\<lparr> platform_nb_hosts := n, available_res := [0..<n] \<rparr>"
| "eb_event s (JobSubmitted jid req wt) =
     (let job = \<lparr> job_id = jid, nb_hosts = to_uint8 req, walltime = wt \<rparr> in
      if nb_hosts job > platform_nb_hosts s then s\<lparr> mb := mb s @ [RejectJob jid] \<rparr>
      else s\<lparr> jobs := jobs s @ [job] \<rparr>)"
| "eb_event s (JobCompleted jid) =
     (let s1 =
        (if jid \<in> dom (running_jobs s) then
           s\<lparr> available_res :=
                 insert_all (case job_allocations s jid of None \<Rightarrow> [] | Some a \<Rightarrow> a)
                   (available_res s),
              running_jobs := (running_jobs s)(jid := None),
              job_allocations := (job_allocations s)(jid := None) \<rparr>
         else s)
      in if jid = reserved_job_id s1 then cancel_reservations s1 else s1)"
| "eb_event s AllStaticJobsHaveBeenSubmitted = s"
| "eb_event s OtherEvent = s"

text \<open>
  The guard that precedes every call of \<open>allocate_and_launch\<close>:
  \<open>available_res.size() >= job->nb_hosts && has_enough_energy(job, current_time)\<close>.
\<close>

definition can_launch_now :: "eb_state \<Rightarrow> SchedJob \<Rightarrow> real \<Rightarrow> bool" where
  "can_launch_now s job current_time =
     (length (available_res s) \<ge> nb_hosts job \<and> has_enough_energy s job current_time)"

text \<open>
  Step 1, the sweep over the whole queue.  The loop erases launched jobs from the list it
  walks; the function returns the jobs that stay together with the state, and nothing
  called inside the loop reads \<open>jobs\<close>.
\<close>

fun eager_sweep :: "real \<Rightarrow> SchedJob list \<Rightarrow> eb_state \<Rightarrow> SchedJob list \<times> eb_state" where
  "eager_sweep current_time [] s = ([], s)"
| "eager_sweep current_time (job # rest) s =
     (if can_launch_now s job current_time
      then eager_sweep current_time rest (allocate_and_launch job current_time s)
      else (let (kept, s') = eager_sweep current_time rest s in (job # kept, s')))"

text \<open>Step 2, the reservation for the blocking first job.\<close>

definition first_job_step :: "real \<Rightarrow> eb_state \<Rightarrow> eb_state" where
  "first_job_step current_time s =
     (case jobs s of
        [] \<Rightarrow> s
      | first_job # rest \<Rightarrow>
          if reserved_job_id s = [] then
            (if can_launch_now s first_job current_time
             then allocate_and_launch first_job current_time (s\<lparr> jobs := rest \<rparr>)
             else (reserve_for_first_job first_job current_time (s\<lparr> jobs := rest \<rparr>))
                    \<lparr> jobs := first_job # rest \<rparr>)
          else s)"

text \<open>Step 3, backfilling, which runs only while a reservation is held.\<close>

fun backfill_sweep :: "real \<Rightarrow> SchedJob list \<Rightarrow> eb_state \<Rightarrow> SchedJob list \<times> eb_state" where
  "backfill_sweep current_time [] s = ([], s)"
| "backfill_sweep current_time (job # rest) s =
     (if job_id job \<noteq> reserved_job_id s \<and> length (available_res s) \<ge> nb_hosts job
         \<and> has_enough_energy s job current_time \<and> can_backfill s job current_time
      then backfill_sweep current_time rest (allocate_and_launch job current_time s)
      else (let (kept, s') = backfill_sweep current_time rest s in (job # kept, s')))"

definition backfill_step :: "real \<Rightarrow> eb_state \<Rightarrow> eb_state" where
  "backfill_step current_time s =
     (if reserved_job_id s \<noteq> [] then
        (let (kept, s') = backfill_sweep current_time (jobs s) s in s'\<lparr> jobs := kept \<rparr>)
      else s)"

text \<open>Step 4, the reserved job is tried again.\<close>

definition reserved_recheck :: "real \<Rightarrow> eb_state \<Rightarrow> eb_state" where
  "reserved_recheck current_time s =
     (case jobs s of
        [] \<Rightarrow> s
      | first_job # rest \<Rightarrow>
          if reserved_job_id s \<noteq> [] \<and> job_id first_job = reserved_job_id s
             \<and> can_launch_now s first_job current_time
          then cancel_reservations
                 (allocate_and_launch first_job current_time (s\<lparr> jobs := rest \<rparr>))
          else s)"

definition eb_schedule :: "real \<Rightarrow> eb_state \<Rightarrow> eb_state" where
  "eb_schedule current_time s =
     (let s1 = update_energy current_time s;
          (kept, s2) = eager_sweep current_time (jobs s1) s1;
          s3 = first_job_step current_time (s2\<lparr> jobs := kept \<rparr>);
          s4 = backfill_step current_time s3
      in reserved_recheck current_time s4)"

text \<open>One call of \<open>batsim_edc_take_decisions\<close>: the message carries \<open>now\<close> and the events.\<close>

definition eb_take_decisions :: "eb_state \<Rightarrow> real \<times> event list \<Rightarrow> eb_state" where
  "eb_take_decisions s msg =
     eb_schedule (fst msg) (foldl eb_event (s\<lparr> mb := [] \<rparr>) (snd msg))"

definition eb_run :: "(real \<times> event list) list \<Rightarrow> eb_state" where
  "eb_run msgs = foldl eb_take_decisions eb_init msgs"

section \<open>reducePC (second unit of \<open>src/EnergyBud_IDLE.cpp\<close>)\<close>

text \<open>
  The job of the two reducePC units carries more fields.  \<open>allocated_hosts\<close> is a
  \<open>std::set<int>\<close>, kept as an ascending list; \<open>running_jobs\<close> is a \<open>std::map\<close>
  from job id to job, kept as an association list (the loops over it only add up and
  take minima, so the order of iteration does not matter).
\<close>

record SchedJobE = SchedJob +
  estimated_energy :: real
  allocated_hosts :: "nat list"
  submission_time :: real
  start_time :: real
  expected_end_time :: real

record rpc_state =
  mb_r :: "decision list"
  jobs_r :: "SchedJobE list"
  running_jobs_r :: "(string \<times> SchedJobE) list"
  platform_nb_hosts_r :: nat
  host_used :: "bool list"
  pourcentage_budget :: real
  energy_budget_active :: bool
  budget_start_time_r :: real
  budget_end_time :: real
  total_energy_budget :: real
  energy_rate :: real
  available_energy :: real
  last_update_time :: real
  consumed_energy :: real
  reduced_energy_rate :: real
  reservation_end_time :: real
  has_active_reservation :: bool

definition P_comp :: real where
  "P_comp = 203.12"

definition P_comp_est :: real where
  "P_comp_est = 203.12"

definition P_idle_est :: real where
  "P_idle_est = 100.00"

definition rpc_init :: rpc_state where
  "rpc_init = \<lparr> mb_r = [], jobs_r = [], running_jobs_r = [], platform_nb_hosts_r = 0,
     host_used = [], pourcentage_budget = 1.0, energy_budget_active = True,
     budget_start_time_r = 0, budget_end_time = 600, total_energy_budget = 0,
     energy_rate = 0, available_energy = 0, last_update_time = 0, consumed_energy = 0,
     reduced_energy_rate = 0, reservation_end_time = 0, has_active_reservation = False \<rparr>"

definition estimate_job_energy :: "'a SchedJob_scheme \<Rightarrow> real" where
  "estimate_job_energy job = real (nb_hosts job) * P_comp_est * walltime job"

definition estimate_job_power :: "'a SchedJob_scheme \<Rightarrow> real" where
  "estimate_job_power job = real (nb_hosts job) * P_comp_est"

definition estimate_cluster_power :: "int \<Rightarrow> int \<Rightarrow> real" where
  "estimate_cluster_power computing_hosts idle_hosts =
     real_of_int computing_hosts * P_comp_est + real_of_int idle_hosts * P_idle_est"

text \<open>The number of entries of \<open>host_used\<close> that are set, as the counting loops find it.\<close>

definition running_hosts_count :: "bool list \<Rightarrow> int" where
  "running_hosts_count hu = int (length (filter (\<lambda>u. u) hu))"

definition update_available_energy :: "real \<Rightarrow> rpc_state \<Rightarrow> rpc_state" where
  "update_available_energy current_time s =
     (if \<not> energy_budget_active s then s
      else
        (if current_time \<ge> budget_start_time_r s \<and> current_time \<le> budget_end_time s then
           let elapsed =
                 (if last_update_time s < budget_start_time_r s
                  then current_time - budget_start_time_r s
                  else current_time - last_update_time s);
               jobs_energy =
                 (\<Sum>(jid, job) \<leftarrow> running_jobs_r s. real (nb_hosts job) * P_comp_est * elapsed);
               idle_hosts = int (platform_nb_hosts_r s) - running_hosts_count (host_used s);
               period_energy_consumed =
                 jobs_energy + real_of_int idle_hosts * P_idle_est * elapsed;
               s1 = s\<lparr> consumed_energy := consumed_energy s + period_energy_consumed \<rparr>;
               s2 = (if elapsed > 0
                     then s1\<lparr> available_energy :=
                                available_energy s1 + reduced_energy_rate s1 * elapsed \<rparr>
                     else s1)
           in (if current_time \<ge> reservation_end_time s2 \<and> has_active_reservation s2
               then s2\<lparr> reduced_energy_rate := energy_rate s2,
                        has_active_reservation := False \<rparr>
               else s2)
         else s)\<lparr> last_update_time := current_time \<rparr>)"

definition has_enough_energy_r :: "rpc_state \<Rightarrow> SchedJobE \<Rightarrow> real \<Rightarrow> bool" where
  "has_enough_energy_r s job current_time =
     (if \<not> energy_budget_active s \<or> current_time < budget_start_time_r s
         \<or> current_time > budget_end_time s
      then True
      else estimate_job_energy job \<le> available_energy s)"

definition reserve_energy_reducePC :: "SchedJobE \<Rightarrow> real \<Rightarrow> real \<Rightarrow> rpc_state \<Rightarrow> rpc_state" where
  "reserve_energy_reducePC job start_time' current_time s =
     (if \<not> energy_budget_active s \<or> current_time < budget_start_time_r s
         \<or> current_time > budget_end_time s
      then s
      else
        let job_energy = estimate_job_energy job;
            time_until_start = start_time' - current_time
        in if time_until_start > 0 then
             let energy_rate_reduction = job_energy / time_until_start;
                 min_rate_factor = 0.3;
                 min_rate = energy_rate s * min_rate_factor
             in s\<lparr> reduced_energy_rate := max min_rate (energy_rate s - energy_rate_reduction),
                   reservation_end_time := start_time',
                   has_active_reservation := True \<rparr>
           else s)"

text \<open>
  \<open>allocate_hosts_for_job\<close>: the scan of \<open>host_used\<close> for the first run of \<open>nb_hosts\<close>
  consecutive free hosts.  \<open>scan_hosts\<close> is the \<open>for\<close> loop, with the rest of the
  vector, the index \<open>i\<close> and the two locals \<open>consecutive_free\<close> and \<open>start_host\<close>; it
  returns the start of the run at the \<open>return true\<close>.
\<close>

fun scan_hosts :: "nat \<Rightarrow> bool list \<Rightarrow> nat \<Rightarrow> int \<Rightarrow> int \<Rightarrow> int option" where
  "scan_hosts nb [] i consecutive_free start_host = None"
| "scan_hosts nb (used # rest) i consecutive_free start_host =
     (if \<not> used then
        (let start_host' = (if consecutive_free = 0 then int i else start_host);
             consecutive_free' = consecutive_free + 1
         in if consecutive_free' = int nb then Some start_host'
            else scan_hosts nb rest (i + 1) consecutive_free' start_host')
      else scan_hosts nb rest (i + 1) 0 (- 1))"

text \<open>The inner loop \<open>for (j = start_host; j < start_host + nb_hosts; j++)\<close>.\<close>

fun mark_hosts :: "nat \<Rightarrow> nat \<Rightarrow> bool list \<times> nat list \<Rightarrow> bool list \<times> nat list" where
  "mark_hosts j 0 (hu, alloc) = (hu, alloc)"
| "mark_hosts j (Suc n) (hu, alloc) = mark_hosts (j + 1) n (hu[j := True], set_insert j alloc)"

definition allocate_hosts_for_job ::
    "nat \<Rightarrow> bool list \<Rightarrow> SchedJobE \<Rightarrow> (bool list \<times> SchedJobE) option" where
  "allocate_hosts_for_job nb_platform hu job =
     (if nb_hosts job > nb_platform then None
      else
        (case scan_hosts (nb_hosts job) hu 0 0 (- 1) of
           None \<Rightarrow> None
         | Some start_host \<Rightarrow>
             (let (hu', alloc) = mark_hosts (nat start_host) (nb_hosts job) (hu, allocated_hosts job)
              in Some (hu', job\<lparr> allocated_hosts := alloc \<rparr>))))"

text \<open>
  The estimate of the time at which hosts come free, inside \<open>try_schedule_jobs\<close> of both
  reducePC units: the value left in \<open>earliest_start_time\<close> before the energy estimate.
\<close>

definition earliest_resource_time :: "real \<Rightarrow> (string \<times> SchedJobE) list \<Rightarrow> real" where
  "earliest_resource_time current_time running =
     fold (\<lambda>(jid, job) t. min t (expected_end_time job)) running (current_time + 1000.0)"

definition resource_start_time ::
    "real \<Rightarrow> int \<Rightarrow> SchedJobE \<Rightarrow> (string \<times> SchedJobE) list \<Rightarrow> real" where
  "resource_start_time current_time available_hosts job running =
     (if int (nb_hosts job) > available_hosts then
        (if running \<noteq> [] then earliest_resource_time current_time running else current_time)
      else current_time)"

text \<open>
  The \<open>JobSubmitted\<close> case of both reducePC units builds the job like this
  (\<open>nb_hosts\<close> is a \<open>uint8_t\<close>).
\<close>

definition submitted_job :: "string \<Rightarrow> nat \<Rightarrow> real \<Rightarrow> real \<Rightarrow> SchedJobE" where
  "submitted_job jid req wt current_time =
     \<lparr> job_id = jid, nb_hosts = to_uint8 req, walltime = wt,
       estimated_energy = real (to_uint8 req) * P_comp_est * wt,
       allocated_hosts = [], submission_time = current_time,
       start_time = 0, expected_end_time = 0 \<rparr>"

text \<open>
  \<open>try_schedule_jobs\<close> of this unit.  \<open>free_hosts_count\<close> is the loop that counts the
  free entries of \<open>host_used\<close>; \<open>start_job\<close> is the block after a successful allocation
  (decision, start and expected end, entry in \<open>running_jobs\<close>); \<open>restore_rate\<close> cancels an
  active reservation; \<open>expected_start_time\<close> is the value of \<open>earliest_start_time\<close> that is
  handed to \<open>reserve_energy_reducePC\<close>: the resource estimate, raised to the energy
  estimate when energy is missing (for \<open>energy_rate = 0\<close> the division gives infinity in
  C++, which the model does not represent).
\<close>

definition free_hosts_count :: "bool list \<Rightarrow> int" where
  "free_hosts_count hu = int (length (filter (\<lambda>u. \<not> u) hu))"

definition start_job :: "SchedJobE \<Rightarrow> real \<Rightarrow> rpc_state \<Rightarrow> rpc_state" where
  "start_job job current_time s =
     s\<lparr> mb_r := mb_r s @ [ExecuteJob (job_id job) (allocated_hosts job)],
        running_jobs_r :=
          AList.update (job_id job)
            (job\<lparr> start_time := current_time,
                  expected_end_time := current_time + walltime job \<rparr>)
            (running_jobs_r s) \<rparr>"

definition restore_rate :: "rpc_state \<Rightarrow> rpc_state" where
  "restore_rate s =
     (if has_active_reservation s
      then s\<lparr> reduced_energy_rate := energy_rate s, has_active_reservation := False \<rparr>
      else s)"

definition expected_start_time :: "real \<Rightarrow> int \<Rightarrow> SchedJobE \<Rightarrow> rpc_state \<Rightarrow> real" where
  "expected_start_time current_time available_hosts reserved_job s =
     (let earliest_start_time =
            resource_start_time current_time available_hosts reserved_job (running_jobs_r s)
      in if energy_budget_active s \<and> current_time \<ge> budget_start_time_r s
            \<and> current_time \<le> budget_end_time s
         then
           (let needed_energy = estimate_job_energy reserved_job;
                missing_energy = needed_energy - available_energy s
            in if missing_energy > 0 then
                 (let time_to_accumulate = (missing_energy / energy_rate s) * 1.1;
                      energy_start_time = current_time + time_to_accumulate
                  in if energy_start_time > earliest_start_time then energy_start_time
                     else earliest_start_time)
               else earliest_start_time)
         else earliest_start_time)"

text \<open>The loop over the sorted candidates; a launched job is erased from the queue.\<close>

fun backfill_loop ::
    "real \<Rightarrow> SchedJobE list \<Rightarrow> int \<Rightarrow> bool \<Rightarrow> rpc_state \<Rightarrow> bool \<times> rpc_state" where
  "backfill_loop current_time [] available_hosts any_job_scheduled s = (any_job_scheduled, s)"
| "backfill_loop current_time (candidate # rest) available_hosts any_job_scheduled s =
     (if has_enough_energy_r s candidate current_time then
        (case allocate_hosts_for_job (platform_nb_hosts_r s) (host_used s) candidate of
           Some (hu', job') \<Rightarrow>
             (let s' = (start_job job' current_time (s\<lparr> host_used := hu' \<rparr>))
                         \<lparr> jobs_r := remove1 candidate (jobs_r s) \<rparr>;
                  available_hosts' = available_hosts - int (nb_hosts candidate)
              in if available_hosts' \<le> 0 then (True, s')
                 else backfill_loop current_time rest available_hosts' True s')
         | None \<Rightarrow> backfill_loop current_time rest available_hosts any_job_scheduled s)
      else backfill_loop current_time rest available_hosts any_job_scheduled s)"

definition try_schedule_jobs :: "real \<Rightarrow> rpc_state \<Rightarrow> bool \<times> rpc_state" where
  "try_schedule_jobs current_time s =
     (case jobs_r s of
        [] \<Rightarrow> (False, s)
      | first_job # rest \<Rightarrow>
          (let available_hosts = free_hosts_count (host_used s);
               can_run_first_job =
                 (int (nb_hosts first_job) \<le> available_hosts
                  \<and> has_enough_energy_r s first_job current_time);
               (any_job_scheduled, available_hosts1, s1) =
                 (if can_run_first_job then
                    (case allocate_hosts_for_job (platform_nb_hosts_r s) (host_used s) first_job of
                       Some (hu', job') \<Rightarrow>
                         (True, available_hosts - int (nb_hosts first_job),
                          restore_rate
                            ((start_job job' current_time (s\<lparr> host_used := hu' \<rparr>))
                               \<lparr> jobs_r := rest \<rparr>))
                     | None \<Rightarrow> (False, available_hosts, s))
                  else (False, available_hosts, s))
           in case jobs_r s1 of
                [] \<Rightarrow> (any_job_scheduled, s1)
              | head # others \<Rightarrow>
                  (let (reserved_job, earliest_start_time, s2) =
                         (if \<not> can_run_first_job then
                            (let est = expected_start_time current_time available_hosts1 head s1
                             in (Some head, est,
                                 if est > current_time
                                 then reserve_energy_reducePC head est current_time s1 else s1))
                          else (None, current_time, s1))
                   in if available_hosts1 > 0 then
                        (let candidates =
                               filter (\<lambda>job. int (nb_hosts job) \<le> available_hosts1
                                         \<and> (reserved_job = None
                                            \<or> current_time + walltime job \<le> earliest_start_time))
                                 (if reserved_job \<noteq> None then others else head # others)
                         in backfill_loop current_time (sort_key walltime candidates)
                              available_hosts1 any_job_scheduled s2)
                      else (any_job_scheduled, s2))))"

text \<open>The events and one call of \<open>batsim_edc_take_decisions\<close> of this unit.\<close>

fun free_hosts :: "nat list \<Rightarrow> bool list \<Rightarrow> bool list" where
  "free_hosts [] hu = hu"
| "free_hosts (host_id # rest) hu =
     free_hosts rest (if host_id < length hu then hu[host_id := False] else hu)"

fun rpc_event :: "real \<Rightarrow> bool \<times> rpc_state \<Rightarrow> event \<Rightarrow> bool \<times> rpc_state" where
  "rpc_event current_time (should_schedule, s) BatsimHello =
     (should_schedule, s\<lparr> mb_r := mb_r s @ [EDCHello ''reducePC_IDLE'' ''1.0.0''] \<rparr>)"
| "rpc_event current_time (should_schedule, s) (SimulationBegins n) =
     (let s1 = s\<lparr> platform_nb_hosts_r := n,
                   host_used := take n (host_used s) @ replicate (n - length (host_used s)) False \<rparr>;
          s2 = (if energy_budget_active s1 then
                  (let period_duration = budget_end_time s1 - budget_start_time_r s1;
                       max_energy = real n * P_comp * period_duration;
                       total = pourcentage_budget s1 * max_energy
                   in s1\<lparr> total_energy_budget := total,
                          energy_rate := total / period_duration,
                          reduced_energy_rate := total / period_duration,
                          budget_end_time := 1000000.0 \<rparr>)
                else s1)
      in (True, s2\<lparr> last_update_time := current_time \<rparr>))"
| "rpc_event current_time (should_schedule, s) (JobSubmitted jid req wt) =
     (let job = submitted_job jid req wt current_time in
      if nb_hosts job > platform_nb_hosts_r s
      then (should_schedule, s\<lparr> mb_r := mb_r s @ [RejectJob jid] \<rparr>)
      else (True, s\<lparr> jobs_r := jobs_r s @ [job] \<rparr>))"
| "rpc_event current_time (should_schedule, s) (JobCompleted jid) =
     (case map_of (running_jobs_r s) jid of
        Some job \<Rightarrow>
          (True, restore_rate
                   (s\<lparr> host_used := free_hosts (allocated_hosts job) (host_used s),
                       running_jobs_r := AList.delete jid (running_jobs_r s) \<rparr>))
      | None \<Rightarrow> (should_schedule, s))"
| "rpc_event current_time (should_schedule, s) AllStaticJobsHaveBeenSubmitted = (should_schedule, s)"
| "rpc_event current_time (should_schedule, s) OtherEvent = (should_schedule, s)"

definition rpc_take_decisions :: "rpc_state \<Rightarrow> real \<times> event list \<Rightarrow> rpc_state" where
  "rpc_take_decisions s msg =
     (let current_time = fst msg;
          s1 = (update_available_energy current_time s)\<lparr> mb_r := [] \<rparr>;
          (should_schedule, s2) = foldl (rpc_event current_time) (False, s1) (snd msg)
      in if should_schedule then snd (try_schedule_jobs current_time s2) else s2)"

definition rpc_run :: "(real \<times> event list) list \<Rightarrow> rpc_state" where
  "rpc_run msgs = foldl rpc_take_decisions rpc_init msgs"

section \<open>reducePC with deadlock prevention (third unit of \<open>src/EnergyBud_IDLE.cpp\<close>)\<close>

record dl_state = rpc_state +
  last_job_start_time :: real
  emergency_mode :: bool
  consecutive_scheduling_failures :: int
  max_failures_before_override :: int

text \<open>
  \<open>batsim_edc_init\<close> of this unit: the globals' initial values, with the budget computed
  for the two hosts it assumes (\<open>P_comp\<close> is 190.74 here).
\<close>

definition P_comp_d :: real where
  "P_comp_d = 190.74"

definition dl_init :: dl_state where
  "dl_init = \<lparr> mb_r = [], jobs_r = [], running_jobs_r = [], platform_nb_hosts_r = 2,
     host_used = [], pourcentage_budget = 1.0, energy_budget_active = True,
     budget_start_time_r = 0, budget_end_time = 30,
     total_energy_budget = 1.1 * 2 * P_comp_d * (30 - 0),
     energy_rate = (1.1 * 2 * P_comp_d * (30 - 0)) / (30 - 0),
     available_energy = 0, last_update_time = 0, consumed_energy = 0,
     reduced_energy_rate = (1.1 * 2 * P_comp_d * (30 - 0)) / (30 - 0),
     reservation_end_time = 0, has_active_reservation = False,
     last_job_start_time = 0, emergency_mode = False,
     consecutive_scheduling_failures = 0, max_failures_before_override = 3 \<rparr>"

definition calculate_energy_lookahead :: "dl_state \<Rightarrow> real \<Rightarrow> real \<Rightarrow> real" where
  "calculate_energy_lookahead s current_time horizon =
     fold (\<lambda>(jid, job) future_energy.
             if expected_end_time job \<le> current_time + horizon
             then future_energy
                    + real (nb_hosts job) * P_comp_est * (expected_end_time job - current_time)
             else future_energy)
       (running_jobs_r s) 0"

definition has_enough_energy_d :: "dl_state \<Rightarrow> SchedJobE \<Rightarrow> real \<Rightarrow> bool" where
  "has_enough_energy_d s job current_time =
     (if \<not> energy_budget_active s \<or> current_time < budget_start_time_r s
         \<or> current_time > budget_end_time s
      then True
      else if consecutive_scheduling_failures s \<ge> max_failures_before_override s then True
      else
        let job_energy = estimate_job_energy job;
            lookahead_horizon = min 5.0 (walltime job / 2.0);
            future_energy = calculate_energy_lookahead s current_time lookahead_horizon;
            adjusted_available = available_energy s + future_energy
        in if emergency_mode s then job_energy \<le> adjusted_available * 3.0
           else job_energy \<le> adjusted_available)"

text \<open>
  In \<open>reserve_energy_reducePC\<close> of this unit the floor of the rate depends on the queue.
  \<open>waiting_job != job\<close> compares pointers; a job is in the queue once and ids are unique,
  so the model compares ids.  \<open>jobs->size() / 3\<close> is a division of \<open>size_t\<close>.
\<close>

definition small_jobs_d :: "SchedJobE list \<Rightarrow> SchedJobE \<Rightarrow> int" where
  "small_jobs_d queue job =
     int (length (filter (\<lambda>waiting_job.
            job_id waiting_job \<noteq> job_id job
            \<and> estimate_job_energy waiting_job < estimate_job_energy job * 0.5) queue))"

definition reserve_energy_reducePC_d :: "SchedJobE \<Rightarrow> real \<Rightarrow> real \<Rightarrow> dl_state \<Rightarrow> dl_state" where
  "reserve_energy_reducePC_d job start_time' current_time s =
     (if \<not> energy_budget_active s \<or> current_time < budget_start_time_r s
         \<or> current_time > budget_end_time s
      then s
      else
        let job_energy = estimate_job_energy job;
            time_until_start = start_time' - current_time
        in if time_until_start > 0 then
             let energy_rate_reduction = job_energy / time_until_start;
                 small_jobs = small_jobs_d (jobs_r s) job;
                 min_rate_factor =
                   (if small_jobs > int (length (jobs_r s) div 3) then 0.5 else 0.3);
                 min_rate = energy_rate s * min_rate_factor
             in s\<lparr> reduced_energy_rate := max min_rate (energy_rate s - energy_rate_reduction),
                   reservation_end_time := start_time',
                   has_active_reservation := True \<rparr>
           else s)"

text \<open>
  \<open>update_available_energy\<close> of this unit.  Before it credits the energy it raises
  \<open>reduced_energy_rate\<close> to a floor; \<open>min_rate_factor_d\<close> is the factor of that floor, which
  the function computes from the mean of the queue (\<open>jobs->size() / 2\<close> is a division of
  \<open>size_t\<close>).  After the credit come the end of a reservation and two boosts.
  \<open>emergency_threshold\<close> is a global initialised to 10 that no statement assigns.
\<close>

definition emergency_threshold :: real where
  "emergency_threshold = 10.0"

definition min_rate_factor_d :: "SchedJobE list \<Rightarrow> real" where
  "min_rate_factor_d queue =
     (if queue \<noteq> [] then
        (let avg_energy = (\<Sum>job \<leftarrow> queue. estimate_job_energy job) / real (length queue);
             small_jobs =
               int (length (filter (\<lambda>job. estimate_job_energy job < avg_energy * 0.5) queue))
         in if small_jobs > int (length queue div 2) then 0.5 else 0.3)
      else 0.3)"

definition update_available_energy_d :: "real \<Rightarrow> dl_state \<Rightarrow> dl_state" where
  "update_available_energy_d current_time s =
     (if \<not> energy_budget_active s then s
      else
        (if current_time \<ge> budget_start_time_r s \<and> current_time \<le> budget_end_time s then
           let elapsed =
                 (if last_update_time s < budget_start_time_r s
                  then current_time - budget_start_time_r s
                  else current_time - last_update_time s);
               jobs_energy =
                 (\<Sum>(jid, job) \<leftarrow> running_jobs_r s. real (nb_hosts job) * P_comp_est * elapsed);
               idle_hosts = int (platform_nb_hosts_r s) - running_hosts_count (host_used s);
               period_energy_consumed =
                 jobs_energy + real_of_int idle_hosts * P_idle_est * elapsed;
               s1 = s\<lparr> consumed_energy := consumed_energy s + period_energy_consumed \<rparr>;
               s2 = (if elapsed > 0 then
                       (let min_rate_factor = min_rate_factor_d (jobs_r s1);
                            s1' = (if reduced_energy_rate s1 < energy_rate s1 * min_rate_factor
                                   then s1\<lparr> reduced_energy_rate :=
                                             energy_rate s1 * min_rate_factor \<rparr>
                                   else s1)
                        in s1'\<lparr> available_energy :=
                                  available_energy s1' + reduced_energy_rate s1' * elapsed \<rparr>)
                     else s1);
               s3 = (if current_time \<ge> reservation_end_time s2 \<and> has_active_reservation s2
                     then s2\<lparr> reduced_energy_rate := energy_rate s2,
                              has_active_reservation := False \<rparr>
                     else s2);
               s4 = (if \<not> emergency_mode s3
                        \<and> current_time - last_job_start_time s3 > emergency_threshold
                        \<and> jobs_r s3 \<noteq> []
                     then s3\<lparr> emergency_mode := True,
                              available_energy := available_energy s3 + energy_rate s3 * 10.0 \<rparr>
                     else s3)
           in (if consecutive_scheduling_failures s4 \<ge> max_failures_before_override s4
               then s4\<lparr> available_energy := available_energy s4 + energy_rate s4 * 5.0,
                        consecutive_scheduling_failures := 0 \<rparr>
               else s4)
         else s)\<lparr> last_update_time := current_time \<rparr>)"

text \<open>
  The reservation inside \<open>try_schedule_jobs\<close> of this unit, the part of the block
  \<open>if (!any_job_scheduled)\<close> that precedes the backfilling loop.  \<open>expected_start_time_d\<close>
  is the value of \<open>earliest_start_time\<close> when the reservation is made: the resource
  estimate, raised to the energy estimate when energy is missing even with the lookahead
  over five seconds, and then capped at \<open>current_time + 5\<close> (for \<open>energy_rate = 0\<close> the
  division gives infinity in C++, which the model does not represent).
  \<open>reserve_first_job_d\<close> is the call of \<open>reserve_energy_reducePC\<close> under its guard.
\<close>

definition expected_start_time_d :: "real \<Rightarrow> int \<Rightarrow> SchedJobE \<Rightarrow> dl_state \<Rightarrow> real" where
  "expected_start_time_d current_time available_hosts first_job s =
     (let earliest_start_time =
            resource_start_time current_time available_hosts first_job (running_jobs_r s);
          earliest_start_time1 =
            (if energy_budget_active s \<and> current_time \<ge> budget_start_time_r s
                \<and> current_time \<le> budget_end_time s
             then
               (let needed_energy = estimate_job_energy first_job;
                    missing_energy = needed_energy - available_energy s
                in if missing_energy > 0 then
                     (let future_energy = calculate_energy_lookahead s current_time 5.0;
                          missing_energy1 = max 0.0 (missing_energy - future_energy);
                          time_to_accumulate = (missing_energy1 / energy_rate s) * 1.1;
                          energy_start_time = current_time + time_to_accumulate
                      in if energy_start_time > earliest_start_time then energy_start_time
                         else earliest_start_time)
                   else earliest_start_time)
             else earliest_start_time);
          max_future_time = current_time + 5.0
      in if earliest_start_time1 > max_future_time then max_future_time
         else earliest_start_time1)"

definition reserve_first_job_d :: "real \<Rightarrow> int \<Rightarrow> SchedJobE \<Rightarrow> dl_state \<Rightarrow> dl_state" where
  "reserve_first_job_d current_time available_hosts first_job s =
     (let earliest_start_time = expected_start_time_d current_time available_hosts first_job s
      in if earliest_start_time > current_time
         then reserve_energy_reducePC_d first_job earliest_start_time current_time s
         else s)"

section \<open>Power-capped EASY backfilling (\<open>src/unnamed/part_000\<close>)\<close>

text \<open>
  Reading a \<open>std::set\<close> iterator at or past \<open>end()\<close> is undefined behaviour; the model
  makes it an error value.
\<close>

datatype error = Iterator_past_end

record pc_state =
  mb_p :: "decision list"
  jobs_p :: "SchedJob list"
  running_jobs_p :: "string \<rightharpoonup> SchedJob"
  job_allocations_p :: "string \<rightharpoonup> nat list"
  platform_nb_hosts_p :: nat
  available_res_p :: "nat list"
  shadow_time :: real
  ENERGY_BUDGET :: real
  power_limit :: real
  pourcentage_budget_p :: real
  current_power :: real

definition P_COMP_M :: real where
  "P_COMP_M = 203.12"

definition P_IDLE_A :: real where
  "P_IDLE_A = 95"

definition P_COMP_A :: real where
  "P_COMP_A = 190.74"

definition pc_init :: pc_state where
  "pc_init = \<lparr> mb_p = [], jobs_p = [], running_jobs_p = Map.empty,
     job_allocations_p = Map.empty, platform_nb_hosts_p = 0, available_res_p = [],
     shadow_time = 0.0, ENERGY_BUDGET = 0, power_limit = 0, pourcentage_budget_p = 1.0,
     current_power = 0 \<rparr>"

text \<open>
  \<open>for (uint8_t i = 0; i < nb_hosts; ++i, ++it) job_resources.insert(*it);\<close> starting at
  \<open>available_res.begin()\<close>: the first \<open>nb_hosts\<close> elements, and a read past the end when
  the set holds fewer.
\<close>

definition first_hosts :: "nat \<Rightarrow> nat list \<Rightarrow> error + nat list" where
  "first_hosts n available =
     (if n \<le> length available then Inr (take n available) else Inl Iterator_past_end)"

text \<open>The estimate \<open>available_res.size() * P_IDLE_A + (platform_nb_hosts - available_res.size()) * P_COMP_A\<close>.\<close>

definition platform_power :: "nat \<Rightarrow> nat list \<Rightarrow> real" where
  "platform_power nb_platform available =
     real (length available) * P_IDLE_A
       + real (sub_size_t nb_platform (length available)) * P_COMP_A"

fun pc_event :: "pc_state \<Rightarrow> event \<Rightarrow> pc_state" where
  "pc_event s BatsimHello = s\<lparr> mb_p := mb_p s @ [EDCHello ''easy_backfill'' ''1.0.0''] \<rparr>"
| "pc_event s (SimulationBegins n) =
     s\<lparr> platform_nb_hosts_p := n,
        available_res_p := insert_all [0..<n] (available_res_p s),
        current_power := real n * P_IDLE_A,
        ENERGY_BUDGET := real n * P_COMP_M * pourcentage_budget_p s,
        power_limit := real n * P_COMP_M * pourcentage_budget_p s \<rparr>"
| "pc_event s (JobSubmitted jid req wt) =
     (let job = \<lparr> job_id = jid, nb_hosts = to_uint8 req, walltime = wt \<rparr> in
      if nb_hosts job > platform_nb_hosts_p s then s\<lparr> mb_p := mb_p s @ [RejectJob jid] \<rparr>
      else
        (let s1 = s\<lparr> jobs_p := jobs_p s @ [job] \<rparr>
         in if length (jobs_p s1) = 1 then s1\<lparr> shadow_time := walltime job \<rparr> else s1))"
| "pc_event s (JobCompleted jid) =
     (if jid \<in> dom (running_jobs_p s) then
        (let available =
               insert_all (case job_allocations_p s jid of None \<Rightarrow> [] | Some a \<Rightarrow> a)
                 (available_res_p s)
         in s\<lparr> available_res_p := available,
               current_power := platform_power (platform_nb_hosts_p s) available,
               running_jobs_p := (running_jobs_p s)(jid := None),
               job_allocations_p := (job_allocations_p s)(jid := None) \<rparr>)
      else s)"
| "pc_event s AllStaticJobsHaveBeenSubmitted = s"
| "pc_event s OtherEvent = s"

text \<open>
  The two launch blocks share this effect: the hosts are erased from the free set, the
  power estimate takes the value computed for the job, the job is recorded as running
  and the decision is added.
\<close>

definition pc_launch :: "SchedJob \<Rightarrow> nat list \<Rightarrow> real \<Rightarrow> pc_state \<Rightarrow> pc_state" where
  "pc_launch job job_resources new_power s =
     s\<lparr> available_res_p := filter (\<lambda>res. res \<notin> set job_resources) (available_res_p s),
        current_power := new_power,
        running_jobs_p := (running_jobs_p s)(job_id job \<mapsto> job),
        job_allocations_p := (job_allocations_p s)(job_id job \<mapsto> job_resources),
        mb_p := mb_p s @ [ExecuteJob (job_id job) job_resources] \<rparr>"

text \<open>
  The backfilling loop over the jobs after the first one; it stops at the first launch.
  The function returns the candidates that stay queued and the state.
\<close>

fun pc_backfill :: "SchedJob list \<Rightarrow> pc_state \<Rightarrow> error + (SchedJob list \<times> pc_state)" where
  "pc_backfill [] s = Inr ([], s)"
| "pc_backfill (backfill_candidate # rest) s =
     (let backfill_power =
            current_power s + real (nb_hosts backfill_candidate) * (P_COMP_A - P_IDLE_A)
      in if length (available_res_p s) \<ge> nb_hosts backfill_candidate
            \<and> walltime backfill_candidate \<le> shadow_time s
            \<and> backfill_power \<le> power_limit s
         then
           (case first_hosts (nb_hosts backfill_candidate) (available_res_p s) of
              Inl e \<Rightarrow> Inl e
            | Inr job_resources \<Rightarrow>
                (let resources_available =
                       list_all (\<lambda>res. res \<in> set (available_res_p s)) job_resources;
                     s1 = s\<lparr> current_power :=
                                platform_power (platform_nb_hosts_p s) (available_res_p s) \<rparr>
                 in if resources_available \<and> backfill_power \<le> power_limit s1
                    then Inr (rest, pc_launch backfill_candidate job_resources backfill_power s1)
                    else (case pc_backfill rest s1 of
                            Inl e \<Rightarrow> Inl e
                          | Inr (kept, s') \<Rightarrow> Inr (backfill_candidate # kept, s'))))
         else (case pc_backfill rest s of
                 Inl e \<Rightarrow> Inl e
               | Inr (kept, s') \<Rightarrow> Inr (backfill_candidate # kept, s')))"

text \<open>
  The scheduling block after the events.  \<open>first_job_can_run\<close> and \<open>soon_power\<close> are
  computed before the backfilling loop and used after it.
\<close>

definition pc_schedule :: "pc_state \<Rightarrow> error + pc_state" where
  "pc_schedule s =
     (case jobs_p s of
        [] \<Rightarrow> Inr s
      | first_job # others \<Rightarrow>
          (let soon_power =
                 current_power s + real (nb_hosts first_job) * (P_COMP_A - P_IDLE_A);
               first_job_can_run =
                 (length (available_res_p s) \<ge> nb_hosts first_job \<and> soon_power \<le> power_limit s)
           in case pc_backfill others s of
                Inl e \<Rightarrow> Inl e
              | Inr (kept, s1) \<Rightarrow>
                  if first_job_can_run then
                    (case first_hosts (nb_hosts first_job) (available_res_p s1) of
                       Inl e \<Rightarrow> Inl e
                     | Inr job_resources \<Rightarrow>
                         Inr ((pc_launch first_job job_resources soon_power s1)
                                \<lparr> jobs_p := kept \<rparr>))
                  else Inr (s1\<lparr> jobs_p := first_job # kept \<rparr>)))"

definition pc_take_decisions :: "pc_state \<Rightarrow> real \<times> event list \<Rightarrow> error + pc_state" where
  "pc_take_decisions s msg = pc_schedule (foldl pc_event (s\<lparr> mb_p := [] \<rparr>) (snd msg))"

fun pc_run_from :: "pc_state \<Rightarrow> (real \<times> event list) list \<Rightarrow> error + pc_state" where
  "pc_run_from s [] = Inr s"
| "pc_run_from s (msg # msgs) =
     (case pc_take_decisions s msg of Inl e \<Rightarrow> Inl e | Inr s' \<Rightarrow> pc_run_from s' msgs)"

section \<open>EASY backfilling without energy (\<open>src/unnamed/part_001\<close>)\<close>

record JobCompletion =
  jc_job_id :: string
  completion_time :: real
  resources :: "nat list"

text \<open>
  \<open>find_available_resources\<close> prints the free set as text and reads ids back from the
  text, lowest first, until it has enough; the model takes the ids directly.
\<close>

definition find_available_resources :: "nat \<Rightarrow> nat list \<Rightarrow> nat list option" where
  "find_available_resources nb_resources_needed available =
     (if length available < nb_resources_needed then None
      else Some (take nb_resources_needed available))"

text \<open>\<open>timeline[k] = v\<close> on a \<open>std::map<double, int>\<close>, kept as a list ascending in \<open>k\<close>.\<close>

fun timeline_set :: "real \<Rightarrow> int \<Rightarrow> (real \<times> int) list \<Rightarrow> (real \<times> int) list" where
  "timeline_set k v [] = [(k, v)]"
| "timeline_set k v ((k', v') # rest) =
     (if k < k' then (k, v) # (k', v') # rest
      else if k = k' then (k, v) # rest
      else (k', v') # timeline_set k v rest)"

fun timeline_walk :: "int \<Rightarrow> int \<Rightarrow> (real \<times> int) list \<Rightarrow> real option" where
  "timeline_walk nb current_resources [] = None"
| "timeline_walk nb current_resources ((time, delta) # rest) =
     (let current_resources' = current_resources + delta
      in if current_resources' \<ge> nb then Some time
         else timeline_walk nb current_resources' rest)"

definition predict_job_start_time ::
    "real \<Rightarrow> nat list \<Rightarrow> JobCompletion list \<Rightarrow> nat \<Rightarrow> real" where
  "predict_job_start_time current_time available completions nb_resources =
     (case find_available_resources nb_resources available of
        Some temp_resources \<Rightarrow> current_time
      | None \<Rightarrow>
          (let timeline =
                 fold (\<lambda>completed_job tl.
                         if completion_time completed_job > current_time
                         then timeline_set (completion_time completed_job)
                                (int (length available)) tl
                         else tl)
                   completions (timeline_set current_time (int (length available)) [])
           in case timeline_walk (int nb_resources) (int (length available)) timeline of
                Some time \<Rightarrow> time
              | None \<Rightarrow> current_time + 1000000000))"

section \<open>Traces of events and the host invariant\<close>

text \<open>
  The protocol delivers \<open>SimulationBegins\<close> before any job, and job ids are unique within
  a simulation.  \<open>wf_events\<close> says so of a sequence of events: the submitted ids are
  distinct and no \<open>SimulationBegins\<close> follows a submission.
\<close>

fun submitted_ids :: "event list \<Rightarrow> string list" where
  "submitted_ids [] = []"
| "submitted_ids (JobSubmitted jid req wt # es) = jid # submitted_ids es"
| "submitted_ids (e # es) = submitted_ids es"

fun is_begins :: "event \<Rightarrow> bool" where
  "is_begins (SimulationBegins n) = True"
| "is_begins e = False"

fun is_submission :: "event \<Rightarrow> bool" where
  "is_submission (JobSubmitted jid req wt) = True"
| "is_submission e = False"

definition wf_events :: "event list \<Rightarrow> bool" where
  "wf_events es =
     (distinct (submitted_ids es)
      \<and> list_all (\<lambda>e. \<not> is_begins e) (dropWhile (\<lambda>e. \<not> is_submission e) es))"

text \<open>
  The hosts held by the allocations on record, and the invariant: the free hosts and the
  allocated hosts are disjoint and together are \<open>{0..<H}\<close>, two allocations share no
  host, and the jobs with an allocation are the running jobs.
\<close>

definition alloc_hosts :: "(string \<rightharpoonup> nat list) \<Rightarrow> nat set" where
  "alloc_hosts m = (\<Union>a \<in> ran m. set a)"

definition partition_of ::
    "nat \<Rightarrow> nat list \<Rightarrow> (string \<rightharpoonup> nat list) \<Rightarrow> string set \<Rightarrow> bool" where
  "partition_of nb_platform available allocations running =
     (set available \<inter> alloc_hosts allocations = {}
      \<and> set available \<union> alloc_hosts allocations = {0 ..< nb_platform}
      \<and> (\<forall>a b x y. a \<noteq> b \<longrightarrow> allocations a = Some x \<longrightarrow> allocations b = Some y
            \<longrightarrow> set x \<inter> set y = {})
      \<and> running = dom allocations)"

definition hosts_partition :: "eb_state \<Rightarrow> bool" where
  "hosts_partition s =
     partition_of (platform_nb_hosts s) (available_res s) (job_allocations s)
       (dom (running_jobs s))"

definition hosts_partition_p :: "pc_state \<Rightarrow> bool" where
  "hosts_partition_p s =
     partition_of (platform_nb_hosts_p s) (available_res_p s) (job_allocations_p s)
       (dom (running_jobs_p s))"

text \<open>Auxiliary invariants of the proof: the free set ascends strictly, the queue holds
  each id once and none that runs.\<close>

definition hosts_ok :: "eb_state \<Rightarrow> bool" where
  "hosts_ok s = (sorted_wrt (<) (available_res s) \<and> hosts_partition s)"

definition queue_ok :: "SchedJob list \<Rightarrow> eb_state \<Rightarrow> bool" where
  "queue_ok q s =
     (distinct (map job_id q) \<and> set (map job_id q) \<inter> dom (running_jobs s) = {})"

definition live_ids :: "SchedJob list \<Rightarrow> eb_state \<Rightarrow> string set" where
  "live_ids q s = set (map job_id q) \<union> dom (running_jobs s)"

definition eb_inv :: "eb_state \<Rightarrow> bool" where
  "eb_inv s = (hosts_ok s \<and> queue_ok (jobs s) s)"

definition trace_ok :: "eb_state \<Rightarrow> event list \<Rightarrow> bool" where
  "trace_ok s rem =
     (eb_inv s \<and> distinct (submitted_ids rem)
      \<and> live_ids (jobs s) s \<inter> set (submitted_ids rem) = {}
      \<and> (live_ids (jobs s) s = {} \<or> list_all (\<lambda>e. \<not> is_begins e) rem)
      \<and> list_all (\<lambda>e. \<not> is_begins e) (dropWhile (\<lambda>e. \<not> is_submission e) rem))"

text \<open>Two ticks that leave a reservation for \<open>j1\<close> behind, with \<open>j0\<close> running on two of
  three hosts.\<close>

definition c6_trace :: "(real \<times> event list) list" where
  "c6_trace = [(0, [SimulationBegins 3, JobSubmitted ''j0'' 2 100]),
               (10, [JobSubmitted ''j1'' 3 10])]"

section \<open>The specification's wording, for comparison\<close>

text \<open>
  The floor factor \<open>m\<close> of the reduced rate as the specification words it: 0.5 if more
  than half of the waiting jobs have an estimated energy below half of the mean over the
  queue, else 0.3.
\<close>

definition spec_min_rate_factor :: "SchedJobE list \<Rightarrow> real" where
  "spec_min_rate_factor queue =
     (let mean = (\<Sum>j \<leftarrow> queue. estimate_job_energy j) / real (length queue);
          small = length (filter (\<lambda>j. estimate_job_energy j < mean / 2) queue)
      in if real small > real (length queue) / 2 then 0.5 else 0.3)"

text \<open>
  The number of hosts free at time \<open>t\<close> if nothing is launched: the free hosts and the
  hosts of the running jobs whose projected end is at most \<open>t\<close>.
\<close>

definition spec_hosts_free_by :: "int \<Rightarrow> (string \<times> SchedJobE) list \<Rightarrow> real \<Rightarrow> int" where
  "spec_hosts_free_by available_hosts running t =
     available_hosts
       + (\<Sum>(jid, job) \<leftarrow> running. if expected_end_time job \<le> t then int (nb_hosts job) else 0)"

text \<open>A run of \<open>nb\<close> consecutive free hosts of \<open>host_used\<close> that starts at host \<open>st\<close>.\<close>

definition free_run :: "bool list \<Rightarrow> nat \<Rightarrow> nat \<Rightarrow> bool" where
  "free_run hu st nb = (st + nb \<le> length hu \<and> list_all (\<lambda>u. \<not> u) (take nb (drop st hu)))"

text \<open>A running job as the launch code of the reducePC units records it.\<close>

definition running_at :: "string \<Rightarrow> nat \<Rightarrow> real \<Rightarrow> real \<Rightarrow> nat list \<Rightarrow> string \<times> SchedJobE" where
  "running_at jid n wt t0 hosts =
     (jid, (submitted_job jid n wt 0)\<lparr> allocated_hosts := hosts, start_time := t0,
              expected_end_time := t0 + wt \<rparr>)"

text \<open>
  Three ticks of the first reducePC unit: \<open>j0\<close> runs on three of four hosts until 140;
  at 110 \<open>j1\<close> (two hosts), \<open>j2\<close> (one host, walltime 5) and \<open>j3\<close> (one host, walltime
  50) arrive.  \<open>c9_state\<close> is the state in which the third call reaches
  \<open>try_schedule_jobs\<close>.
\<close>

definition c9_events :: "event list" where
  "c9_events = [JobSubmitted ''j1'' 2 10, JobSubmitted ''j2'' 1 5, JobSubmitted ''j3'' 1 50]"

definition c9_trace :: "(real \<times> event list) list" where
  "c9_trace = [(0, [SimulationBegins 4]), (100, [JobSubmitted ''j0'' 3 40]), (110, c9_events)]"

definition c9_state :: rpc_state where
  "c9_state =
     snd (foldl (rpc_event 110)
            (False, (update_available_energy 110 (rpc_run (take 2 c9_trace)))\<lparr> mb_r := [] \<rparr>)
            c9_events)"


definition pivot_state_d :: dl_state where
  "pivot_state_d = dl_init\<lparr> jobs_r := [submitted_job ''j1'' 1 1 0],
                     running_jobs_r := [running_at ''a'' 2 10 0 [0, 1]],
                     host_used := [True, True], available_energy := 1000 \<rparr>"

section \<open>Properties of EnergyBud\<close>

lemmas eb_eval = eb_run_def eb_take_decisions_def eb_schedule_def eb_init_def update_energy_def
  first_job_step_def backfill_step_def reserved_recheck_def budget_period_duration_def
  monitoring_interval_def can_launch_now_def has_enough_energy_def power_per_host_def
  idle_power_per_host_def allocate_and_launch_def reserve_for_first_job_def
  cancel_reservations_def can_backfill_def to_uint8_def sub_size_t_def set_insert_def
  insert_all_def Let_def

lemmas dl_eval = update_available_energy_d_def min_rate_factor_d_def emergency_threshold_def
  dl_init_def P_comp_d_def expected_start_time_d_def reserve_first_job_d_def
  calculate_energy_lookahead_def

subsection \<open>Admission\<close>

text \<open>
  Claim C4, as the code has it.  A job is admitted by EnergyBud exactly when
  \<open>E + r_nominal * walltime \<ge> E_job\<close>, \<open>E \<ge> 0\<close> and the free hosts number at least
  its width, where \<open>E\<close> is \<open>energy_available\<close>, reduced by \<open>reserved_energy\<close> for a job
  other than the reserved one, \<open>r_nominal = energy_budget / budget_period_duration\<close>, and
  the job's energy is counted in watt-hours: \<open>E_job = width * P_comp * (walltime / 3600)\<close>.
\<close>

theorem C4_admission_iff:
  "can_launch_now s job t \<longleftrightarrow>
     (let E = (if job_id job = reserved_job_id s then energy_available s
               else energy_available s - reserved_energy s);
          r_nominal = energy_budget s / budget_period_duration
      in E + r_nominal * walltime job
           \<ge> real (nb_hosts job) * power_per_host * (walltime job / 3600)
         \<and> E \<ge> 0 \<and> length (available_res s) \<ge> nb_hosts job)"
  by (auto simp: can_launch_now_def has_enough_energy_def Let_def)

theorem C4_admission_witness:
  "can_launch_now (eb_run [(0, [SimulationBegins 1])])
      \<lparr> job_id = ''j1'', nb_hosts = 1, walltime = 3600 \<rparr> 0"
  using C4_admission_iff [of "eb_run [(0, [SimulationBegins 1])]"
      "\<lparr> job_id = ''j1'', nb_hosts = 1, walltime = 3600 \<rparr>" 0]
  by (simp add: eb_eval)

text \<open>
  With \<open>E_job = width * P_comp * walltime\<close> in watt-seconds the claim fails: after
  \<open>SimulationBegins\<close> on one host the counter holds 1500.8, a one-host job of one hour
  is admitted, and \<open>1500.8 + (1500.8 / 600) * 3600 < 203.12 * 3600\<close>.
\<close>

theorem C4_admission_counterexample:
  "can_launch_now (eb_run [(0, [SimulationBegins 1])])
      \<lparr> job_id = ''j1'', nb_hosts = 1, walltime = 3600 \<rparr> 0
   \<and> \<not> (energy_available (eb_run [(0, [SimulationBegins 1])])
          + (energy_budget (eb_run [(0, [SimulationBegins 1])]) / budget_period_duration) * 3600
          \<ge> real 1 * power_per_host * 3600)"
  by (simp add: eb_eval)

subsection \<open>The first-call flag of \<open>update_energy\<close>\<close>


lemma budget_start_time_launch [simp]:
  "budget_start_time (allocate_and_launch job t s) = budget_start_time s"
  by (simp add: allocate_and_launch_def Let_def)

lemma budget_start_time_cancel [simp]:
  "budget_start_time (cancel_reservations s) = budget_start_time s"
  by (simp add: cancel_reservations_def)

lemma budget_start_time_reserve [simp]:
  "budget_start_time (reserve_for_first_job job t s) = budget_start_time s"
  by (simp add: reserve_for_first_job_def)


lemma budget_start_time_backfill_sweep:
  "budget_start_time (snd (backfill_sweep t q s)) = budget_start_time s"
  by (induction q arbitrary: s) (simp_all add: Let_def case_prod_beta)

lemma budget_start_time_event [simp]:
  "budget_start_time (eb_event s e) = budget_start_time s"
  by (cases e) (simp_all add: Let_def)

lemma budget_start_time_events [simp]:
  "budget_start_time (foldl eb_event s es) = budget_start_time s"
  by (induction es arbitrary: s) simp_all

lemma budget_start_time_first_job_step [simp]:
  "budget_start_time (first_job_step t s) = budget_start_time s"
  by (simp add: first_job_step_def split: list.splits)

lemma budget_start_time_backfill_step [simp]:
  "budget_start_time (backfill_step t s) = budget_start_time s"
  using budget_start_time_backfill_sweep [of t "jobs s" s]
  by (simp add: backfill_step_def case_prod_beta)

lemma budget_start_time_reserved_recheck [simp]:
  "budget_start_time (reserved_recheck t s) = budget_start_time s"
  by (simp add: reserved_recheck_def split: list.splits)



subsection \<open>The two counters\<close>








subsection \<open>The host invariant\<close>

lemma set_set_insert: "set (set_insert x xs) = insert x (set xs)"
  by (auto simp: set_insert_def set_insort_key)

lemma sorted_set_insert: "sorted_wrt (<) xs \<Longrightarrow> sorted_wrt (<) (set_insert x xs)"
  by (auto simp: set_insert_def strict_sorted_iff sorted_insort distinct_insort)

lemma set_insert_all: "set (insert_all hs xs) = set hs \<union> set xs"
  unfolding insert_all_def by (induction hs arbitrary: xs) (auto simp: set_set_insert)

lemma sorted_insert_all: "sorted_wrt (<) xs \<Longrightarrow> sorted_wrt (<) (insert_all hs xs)"
  unfolding insert_all_def by (induction hs arbitrary: xs) (auto simp: sorted_set_insert)

lemma alloc_hosts_upd:
  "m k = None \<Longrightarrow> alloc_hosts (m(k \<mapsto> a)) = set a \<union> alloc_hosts m"
  by (simp add: alloc_hosts_def)

lemma alloc_hosts_empty: "dom m = {} \<Longrightarrow> alloc_hosts m = {}"
  by (auto simp: alloc_hosts_def ran_def)

lemma alloc_hosts_del:
  assumes "m k = Some a"
    and "\<forall>a b x y. a \<noteq> b \<longrightarrow> m a = Some x \<longrightarrow> m b = Some y \<longrightarrow> set x \<inter> set y = {}"
  shows "alloc_hosts (m(k := None)) = alloc_hosts m - set a"
proof
  show "alloc_hosts (m(k := None)) \<subseteq> alloc_hosts m - set a"
  proof
    fix h assume "h \<in> alloc_hosts (m(k := None))"
    then obtain b y where b: "b \<noteq> k" "m b = Some y" "h \<in> set y"
      by (auto simp: alloc_hosts_def ran_def split: if_splits)
    then have "set y \<inter> set a = {}" using assms by blast
    then show "h \<in> alloc_hosts m - set a" using b by (auto simp: alloc_hosts_def ran_def)
  qed
  show "alloc_hosts m - set a \<subseteq> alloc_hosts (m(k := None))"
  proof
    fix h assume "h \<in> alloc_hosts m - set a"
    then obtain b y where b: "m b = Some y" "h \<in> set y" "h \<notin> set a"
      by (auto simp: alloc_hosts_def ran_def)
    then have "b \<noteq> k" using assms(1) by auto
    then show "h \<in> alloc_hosts (m(k := None))" using b by (auto simp: alloc_hosts_def ran_def)
  qed
qed

lemma alloc_hosts_mem: "m k = Some a \<Longrightarrow> set a \<subseteq> alloc_hosts m"
  by (auto simp: alloc_hosts_def ran_def)

lemma hosts_ok_launch:
  assumes ok: "hosts_ok s" and fresh: "job_id job \<notin> dom (running_jobs s)"
  shows "hosts_ok (allocate_and_launch job t s)"
proof (cases "length (available_res s) < nb_hosts job")
  case True
  then show ?thesis using ok by (simp add: allocate_and_launch_def)
next
  case False
  let ?n = "nb_hosts job"
  let ?av = "available_res s"
  let ?m = "job_allocations s"
  have none: "?m (job_id job) = None" using ok fresh by (auto simp: hosts_ok_def hosts_partition_def partition_of_def)
  have sorted: "sorted_wrt (<) ?av" using ok by (simp add: hosts_ok_def)
  then have dist: "distinct ?av" by (simp add: strict_sorted_iff)
  have split: "set ?av = set (take ?n ?av) \<union> set (drop ?n ?av)"
    by (metis append_take_drop_id set_append)
  have disj: "set (take ?n ?av) \<inter> set (drop ?n ?av) = {}"
    using dist by (metis append_take_drop_id distinct_append)
  have part: "set ?av \<inter> alloc_hosts ?m = {}"
       "set ?av \<union> alloc_hosts ?m = {0 ..< platform_nb_hosts s}"
    using ok by (simp_all add: hosts_ok_def hosts_partition_def partition_of_def)
  have pw: "\<forall>a b x y. a \<noteq> b \<longrightarrow> ?m a = Some x \<longrightarrow> ?m b = Some y \<longrightarrow> set x \<inter> set y = {}"
    using ok by (simp add: hosts_ok_def hosts_partition_def partition_of_def)
  have old_disj: "set x \<inter> set (take ?n ?av) = {}" if "?m a = Some x" for a x
    using alloc_hosts_mem [of "job_allocations s" a x] that part(1) split by blast
  have pw': "\<forall>a b x y. a \<noteq> b
       \<longrightarrow> (?m(job_id job \<mapsto> take ?n ?av)) a = Some x
       \<longrightarrow> (?m(job_id job \<mapsto> take ?n ?av)) b = Some y \<longrightarrow> set x \<inter> set y = {}"
  proof (intro allI impI)
    fix a b x y
    assume ab: "a \<noteq> b" and x: "(?m(job_id job \<mapsto> take ?n ?av)) a = Some x"
      and y: "(?m(job_id job \<mapsto> take ?n ?av)) b = Some y"
    show "set x \<inter> set y = {}"
    proof (cases "a = job_id job")
      case True
      then have "x = take ?n ?av" and "?m b = Some y" using x y ab by auto
      then show ?thesis using old_disj [of b y] by blast
    next
      case na: False
      show ?thesis
      proof (cases "b = job_id job")
        case True
        then have "y = take ?n ?av" and "?m a = Some x" using x y ab by auto
        then show ?thesis using old_disj [of a x] by blast
      next
        case False
        then show ?thesis using na x y ab pw by auto
      qed
    qed
  qed
  have dom': "dom ((running_jobs s)(job_id job \<mapsto> job)) = dom (?m(job_id job \<mapsto> take ?n ?av))"
    using ok by (simp add: hosts_ok_def hosts_partition_def partition_of_def)
  have "sorted_wrt (<) (drop ?n ?av)" using sorted by (simp add: sorted_wrt_drop)
  moreover have "set (drop ?n ?av) \<inter> (set (take ?n ?av) \<union> alloc_hosts ?m) = {}"
    using part(1) split disj by blast
  moreover have "set (drop ?n ?av) \<union> (set (take ?n ?av) \<union> alloc_hosts ?m)
                   = {0 ..< platform_nb_hosts s}"
    using part(2) split by blast
  ultimately show ?thesis
    using False pw' dom' none
    by (simp add: allocate_and_launch_def Let_def hosts_ok_def hosts_partition_def partition_of_def
        alloc_hosts_upd del: fun_upd_apply)
qed

lemma running_launch:
  "dom (running_jobs (allocate_and_launch job t s))
     = (if length (available_res s) < nb_hosts job then dom (running_jobs s)
        else insert (job_id job) (dom (running_jobs s)))"
  by (simp add: allocate_and_launch_def Let_def)


lemma hosts_ok_jobs [simp]: "hosts_ok (s\<lparr> jobs := q \<rparr>) = hosts_ok s"
  by (simp add: hosts_ok_def hosts_partition_def partition_of_def)

lemma hosts_ok_mb [simp]: "hosts_ok (s\<lparr> mb := d \<rparr>) = hosts_ok s"
  by (simp add: hosts_ok_def hosts_partition_def partition_of_def)

lemma hosts_ok_update_energy [simp]: "hosts_ok (update_energy t s) = hosts_ok s"
  by (simp add: update_energy_def Let_def hosts_ok_def hosts_partition_def partition_of_def)

lemma hosts_ok_reserve [simp]: "hosts_ok (reserve_for_first_job job t s) = hosts_ok s"
  by (simp add: reserve_for_first_job_def hosts_ok_def hosts_partition_def partition_of_def)

lemma hosts_ok_cancel [simp]: "hosts_ok (cancel_reservations s) = hosts_ok s"
  by (simp add: cancel_reservations_def hosts_ok_def hosts_partition_def partition_of_def)

lemma running_update_energy [simp]: "running_jobs (update_energy t s) = running_jobs s"
  by (simp add: update_energy_def Let_def)

lemma jobs_update_energy [simp]: "jobs (update_energy t s) = jobs s"
  by (simp add: update_energy_def Let_def)

lemma running_reserve [simp]: "running_jobs (reserve_for_first_job job t s) = running_jobs s"
  by (simp add: reserve_for_first_job_def)

lemma running_cancel [simp]: "running_jobs (cancel_reservations s) = running_jobs s"
  by (simp add: cancel_reservations_def)

lemma jobs_cancel [simp]: "jobs (cancel_reservations s) = jobs s"
  by (simp add: cancel_reservations_def)

lemma jobs_launch [simp]: "jobs (allocate_and_launch job t s) = jobs s"
  by (simp add: allocate_and_launch_def Let_def)

lemma running_launch_subset:
  "dom (running_jobs (allocate_and_launch job t s)) \<subseteq> insert (job_id job) (dom (running_jobs s))"
  by (auto simp: running_launch)

lemma queue_ok_state:
  "running_jobs s' = running_jobs s \<Longrightarrow> queue_ok q s' = queue_ok q s"
  by (simp add: queue_ok_def)

lemma live_ids_state:
  "running_jobs s' = running_jobs s \<Longrightarrow> live_ids q s' = live_ids q s"
  by (simp add: live_ids_def)

lemma queue_ok_launch:
  assumes "queue_ok (job # rest) s"
  shows "queue_ok rest (allocate_and_launch job t s)"
    and "live_ids rest (allocate_and_launch job t s) \<subseteq> live_ids (job # rest) s"
    and "job_id job \<notin> dom (running_jobs s)"
proof -
  let ?D = "dom (running_jobs s)"
  let ?D' = "dom (running_jobs (allocate_and_launch job t s))"
  have sub: "?D' \<subseteq> insert (job_id job) ?D" by (rule running_launch_subset)
  have d: "job_id job \<notin> set (map job_id rest)" "distinct (map job_id rest)"
    and i: "job_id job \<notin> ?D" "set (map job_id rest) \<inter> ?D = {}"
    using assms by (simp_all add: queue_ok_def)
  have "set (map job_id rest) \<inter> ?D' = {}" using sub d i by blast
  then show "queue_ok rest (allocate_and_launch job t s)" using d by (simp add: queue_ok_def)
  have "set (map job_id rest) \<union> ?D' \<subseteq> insert (job_id job) (set (map job_id rest)) \<union> ?D"
    using sub by blast
  then show "live_ids rest (allocate_and_launch job t s) \<subseteq> live_ids (job # rest) s"
    by (simp add: live_ids_def)
  show "job_id job \<notin> dom (running_jobs s)" by (rule i(1))
qed

lemma queue_ok_keep:
  assumes "queue_ok (job # rest) s" and "queue_ok kept s'"
    and "live_ids kept s' \<subseteq> live_ids rest s"
  shows "queue_ok (job # kept) s'" and "live_ids (job # kept) s' \<subseteq> live_ids (job # rest) s"
  using assms by (auto simp: queue_ok_def live_ids_def)

lemma eager_sweep_inv:
  assumes "hosts_ok s" and "queue_ok q s"
  shows "case eager_sweep t q s of (kept, s') \<Rightarrow>
           hosts_ok s' \<and> queue_ok kept s' \<and> live_ids kept s' \<subseteq> live_ids q s"
  using assms
proof (induction q arbitrary: s)
  case Nil
  then show ?case by simp
next
  case (Cons job rest)
  show ?case
  proof (cases "can_launch_now s job t")
    case True
    let ?s1 = "allocate_and_launch job t s"
    have "hosts_ok ?s1" using Cons.prems queue_ok_launch(3) hosts_ok_launch by blast
    moreover have "queue_ok rest ?s1" using Cons.prems queue_ok_launch(1) by blast
    ultimately have "case eager_sweep t rest ?s1 of (kept, s') \<Rightarrow>
           hosts_ok s' \<and> queue_ok kept s' \<and> live_ids kept s' \<subseteq> live_ids rest ?s1"
      by (rule Cons.IH)
    then show ?thesis
      using True queue_ok_launch(2) [OF Cons.prems(2), of t] by (auto split: prod.splits)
  next
    case False
    have "queue_ok rest s" using Cons.prems by (simp add: queue_ok_def)
    with Cons.prems(1) have "case eager_sweep t rest s of (kept, s') \<Rightarrow>
           hosts_ok s' \<and> queue_ok kept s' \<and> live_ids kept s' \<subseteq> live_ids rest s"
      by (rule Cons.IH)
    then show ?thesis
      using False queue_ok_keep [OF Cons.prems(2)] by (auto split: prod.splits)
  qed
qed

lemma backfill_sweep_inv:
  assumes "hosts_ok s" and "queue_ok q s"
  shows "case backfill_sweep t q s of (kept, s') \<Rightarrow>
           hosts_ok s' \<and> queue_ok kept s' \<and> live_ids kept s' \<subseteq> live_ids q s"
  using assms
proof (induction q arbitrary: s)
  case Nil
  then show ?case by simp
next
  case (Cons job rest)
  show ?case
  proof (cases "job_id job \<noteq> reserved_job_id s \<and> length (available_res s) \<ge> nb_hosts job
         \<and> has_enough_energy s job t \<and> can_backfill s job t")
    case True
    let ?s1 = "allocate_and_launch job t s"
    have "hosts_ok ?s1" using Cons.prems queue_ok_launch(3) hosts_ok_launch by blast
    moreover have "queue_ok rest ?s1" using Cons.prems queue_ok_launch(1) by blast
    ultimately have "case backfill_sweep t rest ?s1 of (kept, s') \<Rightarrow>
           hosts_ok s' \<and> queue_ok kept s' \<and> live_ids kept s' \<subseteq> live_ids rest ?s1"
      by (rule Cons.IH)
    then show ?thesis
      using True queue_ok_launch(2) [OF Cons.prems(2), of t] by (auto split: prod.splits)
  next
    case False
    have "queue_ok rest s" using Cons.prems by (simp add: queue_ok_def)
    with Cons.prems(1) have "case backfill_sweep t rest s of (kept, s') \<Rightarrow>
           hosts_ok s' \<and> queue_ok kept s' \<and> live_ids kept s' \<subseteq> live_ids rest s"
      by (rule Cons.IH)
    then show ?thesis
      using False queue_ok_keep [OF Cons.prems(2)] by (auto split: prod.splits)
  qed
qed

lemma eager_step_inv:
  assumes "eb_inv s"
  shows "case eager_sweep t (jobs s) s of (kept, s') \<Rightarrow>
           eb_inv (s'\<lparr> jobs := kept \<rparr>)
           \<and> live_ids (jobs (s'\<lparr> jobs := kept \<rparr>)) (s'\<lparr> jobs := kept \<rparr>) \<subseteq> live_ids (jobs s) s"
  using eager_sweep_inv [of s "jobs s" t] assms
  by (auto simp: eb_inv_def queue_ok_def live_ids_def split: prod.splits)

lemma first_job_step_inv:
  assumes "eb_inv s"
  shows "eb_inv (first_job_step t s)
         \<and> live_ids (jobs (first_job_step t s)) (first_job_step t s) \<subseteq> live_ids (jobs s) s"
proof (cases "jobs s")
  case Nil
  then show ?thesis using assms by (simp add: first_job_step_def)
next
  case (Cons first_job rest)
  show ?thesis
  proof (cases "reserved_job_id s = [] \<and> can_launch_now s first_job t")
    case True
    let ?s0 = "s\<lparr> jobs := rest \<rparr>"
    have q: "queue_ok (first_job # rest) ?s0" using assms Cons by (simp add: eb_inv_def queue_ok_def)
    have h: "hosts_ok ?s0" using assms by (simp add: eb_inv_def)
    have "hosts_ok (allocate_and_launch first_job t ?s0)"
      using h queue_ok_launch(3) [OF q] hosts_ok_launch by blast
    moreover have "queue_ok rest (allocate_and_launch first_job t ?s0)"
      using queue_ok_launch(1) [OF q] by blast
    moreover have "live_ids rest (allocate_and_launch first_job t ?s0)
                     \<subseteq> live_ids (first_job # rest) ?s0"
      using queue_ok_launch(2) [OF q] by blast
    ultimately show ?thesis
      using True Cons by (simp add: first_job_step_def eb_inv_def live_ids_def)
  next
    case False
    then show ?thesis
      using assms Cons
      by (auto simp: first_job_step_def eb_inv_def queue_ok_def live_ids_def)
  qed
qed

lemma backfill_step_inv:
  assumes "eb_inv s"
  shows "eb_inv (backfill_step t s)
         \<and> live_ids (jobs (backfill_step t s)) (backfill_step t s) \<subseteq> live_ids (jobs s) s"
  using backfill_sweep_inv [of s "jobs s" t] assms
  by (auto simp: backfill_step_def eb_inv_def queue_ok_def live_ids_def split: prod.splits)

lemma reserved_recheck_inv:
  assumes "eb_inv s"
  shows "eb_inv (reserved_recheck t s)
         \<and> live_ids (jobs (reserved_recheck t s)) (reserved_recheck t s) \<subseteq> live_ids (jobs s) s"
proof (cases "jobs s")
  case Nil
  then show ?thesis using assms by (simp add: reserved_recheck_def)
next
  case (Cons first_job rest)
  show ?thesis
  proof (cases "reserved_job_id s \<noteq> [] \<and> job_id first_job = reserved_job_id s
         \<and> can_launch_now s first_job t")
    case True
    let ?s0 = "s\<lparr> jobs := rest \<rparr>"
    have q: "queue_ok (first_job # rest) ?s0" using assms Cons by (simp add: eb_inv_def queue_ok_def)
    have h: "hosts_ok ?s0" using assms by (simp add: eb_inv_def)
    have "hosts_ok (allocate_and_launch first_job t ?s0)"
      using h queue_ok_launch(3) [OF q] hosts_ok_launch by blast
    moreover have "queue_ok rest (allocate_and_launch first_job t ?s0)"
      using queue_ok_launch(1) [OF q] by blast
    moreover have "live_ids rest (allocate_and_launch first_job t ?s0)
                     \<subseteq> live_ids (first_job # rest) ?s0"
      using queue_ok_launch(2) [OF q] by blast
    ultimately show ?thesis
      using True Cons by (simp add: reserved_recheck_def eb_inv_def live_ids_def queue_ok_def)
  next
    case False
    then show ?thesis using assms Cons by (auto simp: reserved_recheck_def)
  qed
qed

lemma eb_schedule_inv:
  assumes "eb_inv s"
  shows "eb_inv (eb_schedule t s)
         \<and> live_ids (jobs (eb_schedule t s)) (eb_schedule t s) \<subseteq> live_ids (jobs s) s"
proof -
  let ?s1 = "update_energy t s"
  have i1: "eb_inv ?s1" and l1: "live_ids (jobs ?s1) ?s1 = live_ids (jobs s) s"
    using assms by (simp_all add: eb_inv_def queue_ok_def live_ids_def)
  obtain kept s2 where sw: "eager_sweep t (jobs ?s1) ?s1 = (kept, s2)"
    by (cases "eager_sweep t (jobs ?s1) ?s1")
  let ?s2 = "s2\<lparr> jobs := kept \<rparr>"
  have i2: "eb_inv ?s2" and l2: "live_ids (jobs ?s2) ?s2 \<subseteq> live_ids (jobs ?s1) ?s1"
    using eager_step_inv [OF i1, of t] sw by simp_all
  let ?s3 = "first_job_step t ?s2"
  have i3: "eb_inv ?s3" and l3: "live_ids (jobs ?s3) ?s3 \<subseteq> live_ids (jobs ?s2) ?s2"
    using first_job_step_inv [OF i2, of t] by simp_all
  let ?s4 = "backfill_step t ?s3"
  have i4: "eb_inv ?s4" and l4: "live_ids (jobs ?s4) ?s4 \<subseteq> live_ids (jobs ?s3) ?s3"
    using backfill_step_inv [OF i3, of t] by simp_all
  let ?s5 = "reserved_recheck t ?s4"
  have i5: "eb_inv ?s5" and l5: "live_ids (jobs ?s5) ?s5 \<subseteq> live_ids (jobs ?s4) ?s4"
    using reserved_recheck_inv [OF i4, of t] by simp_all
  have eq: "eb_schedule t s = ?s5" unfolding eb_schedule_def Let_def sw by simp
  show ?thesis unfolding eq using i5 l5 l4 l3 l2 l1 by blast
qed


lemma hosts_ok_complete:
  assumes ok: "hosts_ok s" and run: "jid \<in> dom (running_jobs s)"
  shows "hosts_ok (s\<lparr> available_res :=
                 insert_all (case job_allocations s jid of None \<Rightarrow> [] | Some a \<Rightarrow> a)
                   (available_res s),
              running_jobs := (running_jobs s)(jid := None),
              job_allocations := (job_allocations s)(jid := None) \<rparr>)"
proof -
  let ?m = "job_allocations s"
  have "jid \<in> dom ?m" using ok run by (simp add: hosts_ok_def hosts_partition_def partition_of_def)
  then obtain a where a: "?m jid = Some a" by auto
  have pw: "\<forall>a b x y. a \<noteq> b \<longrightarrow> ?m a = Some x \<longrightarrow> ?m b = Some y \<longrightarrow> set x \<inter> set y = {}"
    using ok by (simp add: hosts_ok_def hosts_partition_def partition_of_def)
  have del: "alloc_hosts (?m(jid := None)) = alloc_hosts ?m - set a"
    by (rule alloc_hosts_del [OF a pw])
  have sub: "set a \<subseteq> alloc_hosts ?m" using alloc_hosts_mem [of ?m jid a] a by simp
  have part: "set (available_res s) \<inter> alloc_hosts ?m = {}"
       "set (available_res s) \<union> alloc_hosts ?m = {0 ..< platform_nb_hosts s}"
    using ok by (simp_all add: hosts_ok_def hosts_partition_def partition_of_def)
  have "(set a \<union> set (available_res s)) \<inter> (alloc_hosts ?m - set a) = {}"
    using part(1) by blast
  moreover have "(set a \<union> set (available_res s)) \<union> (alloc_hosts ?m - set a)
                   = {0 ..< platform_nb_hosts s}"
    using part(2) sub by blast
  moreover have "sorted_wrt (<) (insert_all a (available_res s))"
    using ok by (simp add: hosts_ok_def sorted_insert_all)
  moreover have "\<forall>x b y z. x \<noteq> b \<longrightarrow> (?m(jid := None)) x = Some y
                   \<longrightarrow> (?m(jid := None)) b = Some z \<longrightarrow> set y \<inter> set z = {}"
    using pw by (auto split: if_splits)
  moreover have "dom ((running_jobs s)(jid := None)) = dom (?m(jid := None))"
    using ok by (simp add: hosts_ok_def hosts_partition_def partition_of_def)
  ultimately show ?thesis
    using a by (simp add: hosts_ok_def hosts_partition_def partition_of_def del set_insert_all del: fun_upd_apply)
qed

lemma not_begins_dropWhile:
  "list_all (\<lambda>e. \<not> is_begins e) rem
     \<Longrightarrow> list_all (\<lambda>e. \<not> is_begins e) (dropWhile (\<lambda>e. \<not> is_submission e) rem)"
  by (auto simp: list_all_iff dest: set_dropWhileD)

lemma live_ids_empty: "live_ids (jobs s) s = {} \<longleftrightarrow> jobs s = [] \<and> dom (running_jobs s) = {}"
  by (auto simp: live_ids_def)

lemma eb_event_ok:
  assumes "trace_ok s (e # rem)"
  shows "trace_ok (eb_event s e) rem"
proof (cases e)
  case BatsimHello
  then show ?thesis using assms
    by (simp add: trace_ok_def eb_inv_def queue_ok_def live_ids_def)
next
  case (SimulationBegins n)
  then have empty: "jobs s = []" "dom (running_jobs s) = {}"
    using assms by (simp_all add: trace_ok_def live_ids_empty)
  have ok: "hosts_ok s" using assms by (simp add: trace_ok_def eb_inv_def)
  then have "dom (job_allocations s) = {}"
    using empty by (simp add: hosts_ok_def hosts_partition_def partition_of_def)
  then have none: "alloc_hosts (job_allocations s) = {}" "\<And>a. job_allocations s a = None"
    by (auto simp: alloc_hosts_empty)
  have "hosts_ok (s\<lparr> platform_nb_hosts := n, available_res := [0..<n] \<rparr>)"
    using ok none empty by (simp add: hosts_ok_def hosts_partition_def partition_of_def strict_sorted_iff)
  then show ?thesis
    using assms SimulationBegins empty
    by (simp add: trace_ok_def eb_inv_def queue_ok_def live_ids_def)
next
  case (JobSubmitted jid req wt)
  have norem: "list_all (\<lambda>e. \<not> is_begins e) rem"
    using assms JobSubmitted by (simp add: trace_ok_def)
  have fresh: "jid \<notin> live_ids (jobs s) s" "jid \<notin> set (submitted_ids rem)"
      "distinct (submitted_ids rem)"
      "live_ids (jobs s) s \<inter> set (submitted_ids rem) = {}"
    using assms JobSubmitted by (auto simp: trace_ok_def)
  have inv: "eb_inv s" using assms by (simp add: trace_ok_def)
  show ?thesis
  proof (cases "to_uint8 req > platform_nb_hosts s")
    case True
    then show ?thesis
      using inv fresh norem JobSubmitted not_begins_dropWhile [OF norem]
      by (simp add: trace_ok_def eb_inv_def queue_ok_def live_ids_def Let_def)
  next
    case False
    then show ?thesis
      using inv fresh norem JobSubmitted not_begins_dropWhile [OF norem]
      by (auto simp: trace_ok_def eb_inv_def queue_ok_def live_ids_def Let_def)
  qed
next
  case (JobCompleted jid)
  have inv: "hosts_ok s" "queue_ok (jobs s) s" using assms by (simp_all add: trace_ok_def eb_inv_def)
  define s1 where "s1 = (if jid \<in> dom (running_jobs s) then
           s\<lparr> available_res :=
                 insert_all (case job_allocations s jid of None \<Rightarrow> [] | Some a \<Rightarrow> a)
                   (available_res s),
              running_jobs := (running_jobs s)(jid := None),
              job_allocations := (job_allocations s)(jid := None) \<rparr>
         else s)"
  define s2 where "s2 = (if jid = reserved_job_id s1 then cancel_reservations s1 else s1)"
  have h1: "hosts_ok s1" using inv(1) hosts_ok_complete by (simp add: s1_def)
  have j1: "jobs s1 = jobs s" by (simp add: s1_def)
  have r1: "dom (running_jobs s1) \<subseteq> dom (running_jobs s)" by (auto simp: s1_def)
  have h2: "hosts_ok s2" using h1 by (simp add: s2_def)
  have j2: "jobs s2 = jobs s" using j1 by (simp add: s2_def)
  have r2: "dom (running_jobs s2) \<subseteq> dom (running_jobs s)" using r1 by (simp add: s2_def)
  have e: "eb_event s e = s2" using JobCompleted by (simp add: Let_def s1_def s2_def)
  have q2: "queue_ok (jobs s2) s2" using inv(2) r2 unfolding queue_ok_def j2 by blast
  have l2: "live_ids (jobs s2) s2 \<subseteq> live_ids (jobs s) s" using r2 unfolding live_ids_def j2 by blast
  have rem: "distinct (submitted_ids rem)"
      "live_ids (jobs s) s \<inter> set (submitted_ids rem) = {}"
      "live_ids (jobs s) s = {} \<or> list_all (\<lambda>e. \<not> is_begins e) rem"
      "list_all (\<lambda>e. \<not> is_begins e) (dropWhile (\<lambda>e. \<not> is_submission e) rem)"
    using assms JobCompleted by (simp_all add: trace_ok_def)
  have "live_ids (jobs s2) s2 \<inter> set (submitted_ids rem) = {}" using l2 rem(2) by blast
  moreover have "live_ids (jobs s2) s2 = {} \<or> list_all (\<lambda>e. \<not> is_begins e) rem"
    using l2 rem(3) by blast
  ultimately show ?thesis
    unfolding e using h2 q2 rem(1,4) by (simp add: trace_ok_def eb_inv_def)
next
  case AllStaticJobsHaveBeenSubmitted
  then show ?thesis using assms by (simp add: trace_ok_def)
next
  case OtherEvent
  then show ?thesis using assms by (simp add: trace_ok_def)
qed

lemma foldl_events_ok:
  "trace_ok s (es @ rem) \<Longrightarrow> trace_ok (foldl eb_event s es) rem"
  by (induction es arbitrary: s) (auto dest: eb_event_ok)

lemma trace_ok_mb: "trace_ok (s\<lparr> mb := d \<rparr>) rem = trace_ok s rem"
  by (simp add: trace_ok_def eb_inv_def queue_ok_def live_ids_def)

lemma eb_schedule_ok:
  assumes "trace_ok s rem"
  shows "trace_ok (eb_schedule t s) rem"
proof -
  have "eb_inv s" using assms by (simp add: trace_ok_def)
  then have "eb_inv (eb_schedule t s)"
    and "live_ids (jobs (eb_schedule t s)) (eb_schedule t s) \<subseteq> live_ids (jobs s) s"
    using eb_schedule_inv by blast+
  then show ?thesis using assms unfolding trace_ok_def by blast
qed

lemma eb_take_decisions_ok:
  "trace_ok s (snd msg @ rem) \<Longrightarrow> trace_ok (eb_take_decisions s msg) rem"
  unfolding eb_take_decisions_def
  by (intro eb_schedule_ok foldl_events_ok) (simp add: trace_ok_mb)

lemma eb_run_ok:
  "trace_ok s (concat (map snd msgs) @ rem) \<Longrightarrow> trace_ok (foldl eb_take_decisions s msgs) rem"
proof (induction msgs arbitrary: s)
  case Nil
  then show ?case by simp
next
  case (Cons msg msgs)
  then have "trace_ok (eb_take_decisions s msg) (concat (map snd msgs) @ rem)"
    by (simp add: eb_take_decisions_ok)
  then show ?case using Cons.IH by simp
qed

lemma trace_ok_init: "wf_events es \<Longrightarrow> trace_ok eb_init es"
  by (simp add: trace_ok_def wf_events_def eb_inv_def hosts_ok_def hosts_partition_def partition_of_def
      queue_ok_def live_ids_def eb_init_def alloc_hosts_def)

lemma partition_release:
  assumes p: "partition_of nb_platform available m running" and r: "jid \<in> running"
  shows "partition_of nb_platform
           (insert_all (case m jid of None \<Rightarrow> [] | Some a \<Rightarrow> a) available)
           (m(jid := None)) (running - {jid})"
proof -
  have "jid \<in> dom m" using p r by (simp add: partition_of_def)
  then obtain a where a: "m jid = Some a" by auto
  have pw: "\<forall>a b x y. a \<noteq> b \<longrightarrow> m a = Some x \<longrightarrow> m b = Some y \<longrightarrow> set x \<inter> set y = {}"
    using p by (simp add: partition_of_def)
  have del: "alloc_hosts (m(jid := None)) = alloc_hosts m - set a"
    by (rule alloc_hosts_del [OF a pw])
  have sub: "set a \<subseteq> alloc_hosts m" using alloc_hosts_mem [of m jid a] a by simp
  have part: "set available \<inter> alloc_hosts m = {}"
       "set available \<union> alloc_hosts m = {0 ..< nb_platform}"
    using p by (simp_all add: partition_of_def)
  have "(set a \<union> set available) \<inter> (alloc_hosts m - set a) = {}"
    using part(1) by blast
  moreover have "(set a \<union> set available) \<union> (alloc_hosts m - set a) = {0 ..< nb_platform}"
    using part(2) sub by blast
  moreover have "\<forall>x b y z. x \<noteq> b \<longrightarrow> (m(jid := None)) x = Some y
                   \<longrightarrow> (m(jid := None)) b = Some z \<longrightarrow> set y \<inter> set z = {}"
    using pw by (auto split: if_splits)
  moreover have "running - {jid} = dom (m(jid := None))"
    using p by (simp add: partition_of_def)
  ultimately show ?thesis
    using a by (simp add: partition_of_def del set_insert_all del: fun_upd_apply)
qed

lemma pc_complete_partition:
  assumes "hosts_partition_p p"
  shows "hosts_partition_p (pc_event p (JobCompleted jid))"
proof (cases "jid \<in> dom (running_jobs_p p)")
  case True
  then show ?thesis
    using partition_release [of "platform_nb_hosts_p p" "available_res_p p"
        "job_allocations_p p" "dom (running_jobs_p p)" jid] assms
    by (simp add: hosts_partition_p_def Let_def)
next
  case False
  then show ?thesis using assms by simp
qed

text \<open>
  The host invariant of EnergyBud.  In every state EnergyBud reaches from its initial
  state by a sequence of calls of \<open>batsim_edc_take_decisions\<close> (the events of each call,
  then the launches of that tick), over a well-formed sequence of events, the free hosts
  and the hosts of the running jobs' allocations are disjoint and together are
  \<open>{0..<H}\<close>, and the allocations of two running jobs are disjoint.  The \<open>JobCompleted\<close>
  case of the power-capped scheduler, which releases hosts in the same way, keeps the
  same partition.
\<close>

theorem eb_hosts_partition_reachable:
  "(wf_events (concat (map snd msgs)) \<longrightarrow> hosts_partition (eb_run msgs))
   \<and> (hosts_partition_p p \<longrightarrow> hosts_partition_p (pc_event p (JobCompleted jid)))"
proof -
  have "hosts_partition (eb_run msgs)" if wf: "wf_events (concat (map snd msgs))"
  proof -
    have "trace_ok eb_init (concat (map snd msgs) @ [])" using wf by (simp add: trace_ok_init)
    then have "trace_ok (eb_run msgs) []" unfolding eb_run_def by (rule eb_run_ok)
    then show ?thesis by (simp add: trace_ok_def eb_inv_def hosts_ok_def)
  qed
  then show ?thesis using pc_complete_partition by blast
qed

theorem eb_hosts_partition_reachable_witness:
  "hosts_partition (eb_run (c6_trace @ [(15, [JobSubmitted ''j2'' 1 50, JobCompleted ''j0''])]))
   \<and> hosts_partition_p
       (pc_event (pc_launch \<lparr> job_id = ''j'', nb_hosts = 1, walltime = 5 \<rparr> [0] 285.74
          (pc_event pc_init (SimulationBegins 2))) (JobCompleted ''j''))"
proof -
  have wf: "wf_events (concat (map snd
              (c6_trace @ [(15, [JobSubmitted ''j2'' 1 50, JobCompleted ''j0''])])))"
    by (simp add: c6_trace_def wf_events_def)
  have hp: "hosts_partition_p
       (pc_launch \<lparr> job_id = ''j'', nb_hosts = 1, walltime = 5 \<rparr> [0] 285.74
          (pc_event pc_init (SimulationBegins 2)))"
    by (auto simp: hosts_partition_p_def partition_of_def pc_launch_def pc_init_def
        alloc_hosts_def insert_all_def set_insert_def upt_rec)
  show ?thesis
    using eb_hosts_partition_reachable [where
      msgs = "c6_trace @ [(15, [JobSubmitted ''j2'' 1 50, JobCompleted ''j0''])]"
      and p = "pc_launch \<lparr> job_id = ''j'', nb_hosts = 1, walltime = 5 \<rparr> [0] 285.74
          (pc_event pc_init (SimulationBegins 2))"
      and jid = "''j''"] wf hp
    by blast
qed


section \<open>Properties of the two reducePC units\<close>

lemmas rpc_eval = reserve_energy_reducePC_def reserve_energy_reducePC_d_def Let_def
  small_jobs_d_def estimate_job_energy_def P_comp_est_def submitted_job_def rpc_init_def
  dl_init_def spec_min_rate_factor_def P_comp_d_def to_uint8_def

text \<open>
  Claim C5, as the code has it.  Inside the budget window, \<open>reserve_energy_reducePC\<close>
  with \<open>\<Delta>t = expected_start - now > 0\<close> sets the reduced rate to
  \<open>max (m * r_nominal) (r_nominal - E_pivot / \<Delta>t)\<close> and the end of the reservation to
  \<open>expected_start\<close>.  In the first reducePC unit \<open>m\<close> is 0.3 always.  In the unit with
  deadlock prevention \<open>m\<close> is 0.5 if the waiting jobs other than the pivot whose energy is
  below half of the pivot's energy number more than a third of the queue's length
  (integer division), else 0.3.  With \<open>expected_start \<le> now\<close> nothing is installed.
\<close>

theorem C5_reservation:
  "(energy_budget_active s \<and> budget_start_time_r s \<le> now \<and> now \<le> budget_end_time s
      \<and> now < expected_start \<longrightarrow>
        reduced_energy_rate (reserve_energy_reducePC job expected_start now s)
          = max (0.3 * energy_rate s)
                (energy_rate s - estimate_job_energy job / (expected_start - now))
        \<and> reservation_end_time (reserve_energy_reducePC job expected_start now s) = expected_start
        \<and> has_active_reservation (reserve_energy_reducePC job expected_start now s))
   \<and> (energy_budget_active d \<and> budget_start_time_r d \<le> now \<and> now \<le> budget_end_time d
      \<and> now < expected_start \<longrightarrow>
        reduced_energy_rate (reserve_energy_reducePC_d job expected_start now d)
          = max ((if small_jobs_d (jobs_r d) job > int (length (jobs_r d) div 3)
                  then 0.5 else 0.3) * energy_rate d)
                (energy_rate d - estimate_job_energy job / (expected_start - now))
        \<and> reservation_end_time (reserve_energy_reducePC_d job expected_start now d) = expected_start
        \<and> has_active_reservation (reserve_energy_reducePC_d job expected_start now d))
   \<and> (expected_start \<le> now \<longrightarrow>
        reserve_energy_reducePC job expected_start now s = s
        \<and> reserve_energy_reducePC_d job expected_start now d = d)"
  by (simp add: reserve_energy_reducePC_def reserve_energy_reducePC_d_def Let_def mult.commute)

theorem C5_reservation_witness:
  "reduced_energy_rate
     (reserve_energy_reducePC (submitted_job ''j1'' 4 100 0) 50 0
        (rpc_init\<lparr> energy_rate := 800, reduced_energy_rate := 800,
           jobs_r := [submitted_job ''j1'' 4 100 0] \<rparr>)) = 240
   \<and> reduced_energy_rate
     (reserve_energy_reducePC_d (submitted_job ''j1'' 4 100 0) 50 0
        (dl_init\<lparr> energy_rate := 800, reduced_energy_rate := 800,
           jobs_r := [submitted_job ''j1'' 4 100 0, submitted_job ''j2'' 1 1 0] \<rparr>)) = 400
   \<and> reserve_energy_reducePC (submitted_job ''j1'' 4 100 0) 50 50 rpc_init = rpc_init"
  using C5_reservation [where
      s = "rpc_init\<lparr> energy_rate := 800, reduced_energy_rate := 800,
             jobs_r := [submitted_job ''j1'' 4 100 0] \<rparr>"
      and now = 0 and expected_start = 50
      and d = "dl_init\<lparr> energy_rate := 800, reduced_energy_rate := 800,
           jobs_r := [submitted_job ''j1'' 4 100 0, submitted_job ''j2'' 1 1 0] \<rparr>"
      and job = "submitted_job ''j1'' 4 100 0"]
    C5_reservation [where s = rpc_init and now = 50 and expected_start = 50 and d = dl_init
      and job = "submitted_job ''j1'' 4 100 0"]
  by (simp add: rpc_eval)

text \<open>
  The floor is not the one the claim describes.  With \<open>r_nominal = 800\<close>, a pivot of
  81248 J and \<open>\<Delta>t = 50\<close> the floor decides.  Queue \<open>[pivot, j2]\<close> with a small \<open>j2\<close>:
  the unit with deadlock prevention takes \<open>m = 0.5\<close> (rate 400), the claim's rule gives
  0.3 (one job of two is not more than half).  Queue \<open>[pivot, j2, j3]\<close> with two small
  jobs: the first unit takes \<open>m = 0.3\<close> (rate 240), the claim's rule gives 0.5.
\<close>

theorem C5_reservation_counterexample:
  "reduced_energy_rate
     (reserve_energy_reducePC_d (submitted_job ''j1'' 4 100 0) 50 0
        (dl_init\<lparr> energy_rate := 800, reduced_energy_rate := 800,
           jobs_r := [submitted_job ''j1'' 4 100 0, submitted_job ''j2'' 1 1 0] \<rparr>)) = 400
   \<and> max (spec_min_rate_factor [submitted_job ''j1'' 4 100 0, submitted_job ''j2'' 1 1 0] * 800)
         (800 - estimate_job_energy (submitted_job ''j1'' 4 100 0) / (50 - 0)) = 240
   \<and> reduced_energy_rate
     (reserve_energy_reducePC (submitted_job ''j1'' 4 100 0) 50 0
        (rpc_init\<lparr> energy_rate := 800, reduced_energy_rate := 800,
           jobs_r := [submitted_job ''j1'' 4 100 0, submitted_job ''j2'' 1 1 0,
                      submitted_job ''j3'' 1 1 0] \<rparr>)) = 240
   \<and> max (spec_min_rate_factor [submitted_job ''j1'' 4 100 0, submitted_job ''j2'' 1 1 0,
                                submitted_job ''j3'' 1 1 0] * 800)
         (800 - estimate_job_energy (submitted_job ''j1'' 4 100 0) / (50 - 0)) = 400"
  by (simp add: rpc_eval)

text \<open>
  Claim C10.  In both reducePC units \<open>has_enough_energy\<close> returns true whenever the
  current time is outside \<open>[budget_start_time, budget_end_time]\<close> (or the budget is
  switched off).  The unit with deadlock prevention initialises \<open>budget_end_time\<close> to 30
  and never assigns it, so there every job passes the check at any time after 30,
  whatever the energy counter holds.
\<close>

theorem C10_outside_window:
  "(\<not> energy_budget_active s \<or> t < budget_start_time_r s \<or> t > budget_end_time s
      \<longrightarrow> has_enough_energy_r s job t)
   \<and> (\<not> energy_budget_active d \<or> t < budget_start_time_r d \<or> t > budget_end_time d
      \<longrightarrow> has_enough_energy_d d job t)
   \<and> budget_end_time dl_init = 30
   \<and> (budget_end_time d = budget_end_time dl_init \<and> t > 30 \<longrightarrow> has_enough_energy_d d job t)"
  by (auto simp: has_enough_energy_r_def has_enough_energy_d_def dl_init_def)

theorem C10_outside_window_witness:
  "has_enough_energy_r (rpc_init\<lparr> available_energy := 0 \<rparr>) (submitted_job ''j1'' 4 100 0) 601
   \<and> has_enough_energy_d (dl_init\<lparr> available_energy := - 1000 \<rparr>)
        (submitted_job ''j1'' 4 100 0) 31
   \<and> \<not> has_enough_energy_d (dl_init\<lparr> available_energy := - 1000 \<rparr>)
        (submitted_job ''j1'' 4 100 0) 30"
  using C10_outside_window [where s = "rpc_init\<lparr> available_energy := 0 \<rparr>" and t = 601
      and d = "dl_init\<lparr> available_energy := - 1000 \<rparr>" and job = "submitted_job ''j1'' 4 100 0"]
    C10_outside_window [where s = "rpc_init\<lparr> available_energy := 0 \<rparr>" and t = 31
      and d = "dl_init\<lparr> available_energy := - 1000 \<rparr>" and job = "submitted_job ''j1'' 4 100 0"]
  by (simp add: rpc_eval has_enough_energy_d_def calculate_energy_lookahead_def)

section \<open>Properties of the host allocation\<close>

lemma free_run_iff:
  "free_run hu st nb \<longleftrightarrow> st + nb \<le> length hu \<and> (\<forall>k<nb. \<not> hu ! (st + k))"
proof (cases "st + nb \<le> length hu")
  case False
  then show ?thesis by (simp add: free_run_def)
next
  case True
  then have len: "length (take nb (drop st hu)) = nb" by simp
  have "list_all (\<lambda>u. \<not> u) (take nb (drop st hu))
          \<longleftrightarrow> (\<forall>k<nb. \<not> (take nb (drop st hu)) ! k)"
    using len by (simp add: list_all_length)
  also have "\<dots> \<longleftrightarrow> (\<forall>k<nb. \<not> hu ! (st + k))"
    using True by simp
  finally show ?thesis using True by (simp add: free_run_def)
qed

lemma scan_hosts_correct:
  assumes "hu = pre @ us" and "i = length pre" and "0 \<le> c" and "c < int nb" and "nat c \<le> i"
    and "\<forall>k. i - nat c \<le> k \<and> k < i \<longrightarrow> \<not> hu ! k"
    and "c > 0 \<longrightarrow> st = int i - c"
    and "\<forall>s < i - nat c. \<not> free_run hu s nb"
  shows "case scan_hosts nb us i c st of
           Some r \<Rightarrow> r \<ge> 0 \<and> free_run hu (nat r) nb \<and> (\<forall>s < nat r. \<not> free_run hu s nb)
         | None \<Rightarrow> (\<forall>s. \<not> free_run hu s nb)"
  using assms
proof (induction us arbitrary: pre i c st)
  case Nil
  have "\<not> free_run hu s nb" for s
  proof (cases "s < i - nat c")
    case True
    then show ?thesis using Nil.prems by blast
  next
    case False
    then have "s + nb > length hu" using Nil.prems by auto
    then show ?thesis by (simp add: free_run_iff)
  qed
  then show ?case by simp
next
  case (Cons u us)
  have hu_i: "hu ! i = u" using Cons.prems by simp
  have i_lt: "i < length hu" using Cons.prems by simp
  show ?case
  proof (cases u)
    case True
    have inv: "\<forall>s < (i + 1) - nat 0. \<not> free_run hu s nb"
    proof (intro allI impI)
      fix s assume s: "s < (i + 1) - nat 0"
      show "\<not> free_run hu s nb"
      proof (cases "s < i - nat c")
        case True
        then show ?thesis using Cons.prems by blast
      next
        case False
        then have "i - s < nb" and "s \<le> i" using Cons.prems s by auto
        then have "hu ! (s + (i - s))" using hu_i True by simp
        then show ?thesis using \<open>i - s < nb\<close> unfolding free_run_iff by blast
      qed
    qed
    have "case scan_hosts nb us (i + 1) 0 (- 1) of
           Some r \<Rightarrow> r \<ge> 0 \<and> free_run hu (nat r) nb \<and> (\<forall>s < nat r. \<not> free_run hu s nb)
         | None \<Rightarrow> (\<forall>s. \<not> free_run hu s nb)"
      using Cons.prems inv
      by (intro Cons.IH [of "pre @ [u]"]) auto
    then show ?thesis using True by simp
  next
    case False
    define st' where "st' = (if c = 0 then int i else st)"
    have st': "st' = int i - c" using Cons.prems by (auto simp: st'_def)
    show ?thesis
    proof (cases "c + 1 = int nb")
      case True
      have nbc: "nb = nat c + 1" using True Cons.prems by linarith
      have start: "nat st' = i - nat c" using st' Cons.prems by linarith
      have "\<not> hu ! (i - nat c + k)" if "k < nb" for k
      proof (cases "k < nat c")
        case True
        then have "i - nat c \<le> i - nat c + k \<and> i - nat c + k < i"
          using Cons.prems by linarith
        then show ?thesis using Cons.prems(6) by blast
      next
        case False
        then have "i - nat c + k = i" using that nbc Cons.prems by linarith
        then show ?thesis using hu_i \<open>\<not> u\<close> by simp
      qed
      moreover have "i - nat c + nb \<le> length hu" using nbc i_lt Cons.prems by linarith
      ultimately have "free_run hu (nat st') nb" by (simp add: free_run_iff start)
      moreover have "st' \<ge> 0" using st' Cons.prems by linarith
      moreover have "\<forall>s < nat st'. \<not> free_run hu s nb" using Cons.prems start by simp
      ultimately show ?thesis using True False by (simp add: st'_def Let_def)
    next
      case notfull: False
      have free: "\<forall>k. (i + 1) - nat (c + 1) \<le> k \<and> k < i + 1 \<longrightarrow> \<not> hu ! k"
      proof (intro allI impI)
        fix k assume k: "(i + 1) - nat (c + 1) \<le> k \<and> k < i + 1"
        show "\<not> hu ! k"
        proof (cases "k = i")
          case True
          then show ?thesis using hu_i \<open>\<not> u\<close> by simp
        next
          case False
          then have "i - nat c \<le> k \<and> k < i" using k Cons.prems by linarith
          then show ?thesis using Cons.prems by blast
        qed
      qed
      have small: "\<forall>s < (i + 1) - nat (c + 1). \<not> free_run hu s nb"
      proof (intro allI impI)
        fix s assume "s < (i + 1) - nat (c + 1)"
        then have "s < i - nat c" using Cons.prems by linarith
        then show "\<not> free_run hu s nb" using Cons.prems by blast
      qed
      have "case scan_hosts nb us (i + 1) (c + 1) st' of
           Some r \<Rightarrow> r \<ge> 0 \<and> free_run hu (nat r) nb \<and> (\<forall>s < nat r. \<not> free_run hu s nb)
         | None \<Rightarrow> (\<forall>s. \<not> free_run hu s nb)"
      proof (rule Cons.IH [of "pre @ [u]"])
        show "hu = (pre @ [u]) @ us" using Cons.prems by simp
        show "i + 1 = length (pre @ [u])" using Cons.prems by simp
        show "0 \<le> c + 1" using Cons.prems by simp
        show "c + 1 < int nb" using notfull Cons.prems by linarith
        show "nat (c + 1) \<le> i + 1" using Cons.prems by linarith
        show "\<forall>k. i + 1 - nat (c + 1) \<le> k \<and> k < i + 1 \<longrightarrow> \<not> hu ! k" by (rule free)
        show "0 < c + 1 \<longrightarrow> st' = int (i + 1) - (c + 1)" using st' by simp
        show "\<forall>s<i + 1 - nat (c + 1). \<not> free_run hu s nb" by (rule small)
      qed
      then show ?thesis using notfull False by (simp add: st'_def Let_def)
    qed
  qed
qed

lemma scan_hosts_first_run:
  assumes "1 \<le> nb"
  shows "case scan_hosts nb hu 0 0 (- 1) of
           Some r \<Rightarrow> r \<ge> 0 \<and> free_run hu (nat r) nb \<and> (\<forall>s < nat r. \<not> free_run hu s nb)
         | None \<Rightarrow> (\<forall>s. \<not> free_run hu s nb)"
  using assms by (intro scan_hosts_correct [of hu "[]"]) auto

lemma mark_hosts_length: "length (fst (mark_hosts j n (hu, al))) = length hu"
  by (induction n arbitrary: j hu al) auto

lemma mark_hosts_nth:
  "i < length hu \<Longrightarrow> fst (mark_hosts j n (hu, al)) ! i = (hu ! i \<or> (j \<le> i \<and> i < j + n))"
proof (induction n arbitrary: j hu al)
  case 0
  then show ?case by auto
next
  case (Suc n)
  have "fst (mark_hosts j (Suc n) (hu, al)) ! i
          = (hu[j := True] ! i \<or> (j + 1 \<le> i \<and> i < j + 1 + n))"
    using Suc.IH [of "hu[j := True]" "j + 1" "set_insert j al"] Suc.prems by simp
  also have "\<dots> = (hu ! i \<or> (j \<le> i \<and> i < j + Suc n))"
    using Suc.prems by (cases "i = j") (auto simp: nth_list_update)
  finally show ?case .
qed

lemma mark_hosts_alloc: "set (snd (mark_hosts j n (hu, al))) = set al \<union> {j..<j + n}"
proof (induction n arbitrary: j hu al)
  case 0
  then show ?case by simp
next
  case (Suc n)
  then show ?case by (auto simp: set_set_insert)
qed


lemma sorted_take_below_drop:
  assumes "sorted_wrt (<) (xs :: nat list)"
  shows "\<forall>a \<in> set (take n xs). \<forall>b \<in> set (drop n xs). a < b"
proof -
  have "sorted_wrt (<) (take n xs @ drop n xs)" using assms by simp
  then show ?thesis unfolding sorted_wrt_append by blast
qed

lemma sorted_take_below_rest:
  assumes "sorted_wrt (<) (xs :: nat list)"
  shows "\<forall>a \<in> set (take n xs). \<forall>b \<in> set (filter (\<lambda>x. x \<notin> set (take n xs)) xs). a < b"
proof (intro ballI)
  fix a b
  assume a: "a \<in> set (take n xs)" and b: "b \<in> set (filter (\<lambda>x. x \<notin> set (take n xs)) xs)"
  have "set xs = set (take n xs) \<union> set (drop n xs)"
    by (metis append_take_drop_id set_append)
  then have "b \<in> set (drop n xs)" using b by auto
  then show "a < b" using a sorted_take_below_drop [OF assms, of n] by blast
qed

text \<open>
  Claim C3, as the code has it.  \<open>allocate_hosts_for_job\<close> of the reducePC units, for a
  width of at least one, allocates the run of \<open>width\<close> consecutive free hosts with the
  lowest start, marks exactly those hosts used, and fails exactly when the width exceeds
  the platform or no such run exists.  The set-based pool of the power-capped scheduler
  and of EnergyBud takes the \<open>width\<close> lowest free ids when the free hosts number at
  least \<open>width\<close>; \<open>allocate_and_launch\<close> of EnergyBud allocates nothing exactly when
  they number fewer.
\<close>

theorem C3_allocation:
  "(1 \<le> nb_hosts job \<longrightarrow>
     (case allocate_hosts_for_job nb_platform hu job of
        None \<Rightarrow> nb_platform < nb_hosts job \<or> (\<forall>st. \<not> free_run hu st (nb_hosts job))
      | Some (hu', job') \<Rightarrow>
          nb_hosts job \<le> nb_platform
          \<and> (\<exists>st. free_run hu st (nb_hosts job)
                \<and> (\<forall>st' < st. \<not> free_run hu st' (nb_hosts job))
                \<and> length hu' = length hu
                \<and> (\<forall>i < length hu. hu' ! i = (hu ! i \<or> (st \<le> i \<and> i < st + nb_hosts job)))
                \<and> set (allocated_hosts job')
                    = set (allocated_hosts job) \<union> {st ..< st + nb_hosts job})))
   \<and> (n \<le> length available \<longrightarrow> first_hosts n available = Inr (take n available))
   \<and> (sorted_wrt (<) available \<longrightarrow>
        (\<forall>a \<in> set (take n available).
           \<forall>b \<in> set (filter (\<lambda>res. res \<notin> set (take n available)) available). a < b))
   \<and> (nb_hosts j \<le> length (available_res s) \<longrightarrow>
        job_allocations (allocate_and_launch j t s) (job_id j)
          = Some (take (nb_hosts j) (available_res s))
        \<and> available_res (allocate_and_launch j t s) = drop (nb_hosts j) (available_res s))
   \<and> (sorted_wrt (<) (available_res s) \<longrightarrow>
        (\<forall>a \<in> set (take (nb_hosts j) (available_res s)).
           \<forall>b \<in> set (drop (nb_hosts j) (available_res s)). a < b))
   \<and> (length (available_res s) < nb_hosts j \<longrightarrow> allocate_and_launch j t s = s)"
proof -
  have vec: "case allocate_hosts_for_job nb_platform hu job of
        None \<Rightarrow> nb_platform < nb_hosts job \<or> (\<forall>st. \<not> free_run hu st (nb_hosts job))
      | Some (hu', job') \<Rightarrow>
          nb_hosts job \<le> nb_platform
          \<and> (\<exists>st. free_run hu st (nb_hosts job)
                \<and> (\<forall>st' < st. \<not> free_run hu st' (nb_hosts job))
                \<and> length hu' = length hu
                \<and> (\<forall>i < length hu. hu' ! i = (hu ! i \<or> (st \<le> i \<and> i < st + nb_hosts job)))
                \<and> set (allocated_hosts job')
                    = set (allocated_hosts job) \<union> {st ..< st + nb_hosts job})"
    if nb: "1 \<le> nb_hosts job"
  proof (cases "nb_hosts job > nb_platform")
    case True
    then show ?thesis by (simp add: allocate_hosts_for_job_def)
  next
    case fits: False
    show ?thesis
    proof (cases "scan_hosts (nb_hosts job) hu 0 0 (- 1)")
      case None
      then have "\<forall>st. \<not> free_run hu st (nb_hosts job)"
        using scan_hosts_first_run [OF nb, of hu] by simp
      then show ?thesis using None fits by (simp add: allocate_hosts_for_job_def)
    next
      case (Some r)
      then have r: "r \<ge> 0" "free_run hu (nat r) (nb_hosts job)"
          "\<forall>s < nat r. \<not> free_run hu s (nb_hosts job)"
        using scan_hosts_first_run [OF nb, of hu] by simp_all
      obtain hu' al where m: "mark_hosts (nat r) (nb_hosts job) (hu, allocated_hosts job) = (hu', al)"
        by (cases "mark_hosts (nat r) (nb_hosts job) (hu, allocated_hosts job)")
      have hu': "hu' = fst (mark_hosts (nat r) (nb_hosts job) (hu, allocated_hosts job))"
        and al: "al = snd (mark_hosts (nat r) (nb_hosts job) (hu, allocated_hosts job))"
        using m by simp_all
      have res: "allocate_hosts_for_job nb_platform hu job
                   = Some (hu', job\<lparr> allocated_hosts := al \<rparr>)"
        using Some fits m by (simp add: allocate_hosts_for_job_def)
      have "length hu' = length hu" by (simp add: hu' mark_hosts_length)
      moreover have "\<forall>i < length hu. hu' ! i = (hu ! i \<or> (nat r \<le> i \<and> i < nat r + nb_hosts job))"
        by (simp add: hu' mark_hosts_nth)
      moreover have "set al = set (allocated_hosts job) \<union> {nat r ..< nat r + nb_hosts job}"
        by (simp add: al mark_hosts_alloc)
      ultimately show ?thesis using r fits res by auto
    qed
  qed
  have eb: "nb_hosts j \<le> length (available_res s) \<longrightarrow>
        job_allocations (allocate_and_launch j t s) (job_id j)
          = Some (take (nb_hosts j) (available_res s))
        \<and> available_res (allocate_and_launch j t s) = drop (nb_hosts j) (available_res s)"
    by (simp add: allocate_and_launch_def Let_def)
  have eb_fail: "length (available_res s) < nb_hosts j \<longrightarrow> allocate_and_launch j t s = s"
    by (simp add: allocate_and_launch_def)
  show ?thesis
    using vec eb eb_fail sorted_take_below_rest [of available n]
      sorted_take_below_drop [of "available_res s" "nb_hosts j"]
    by (simp add: first_hosts_def)
qed

lemma mark_hosts_unfold:
  "mark_hosts j n (hu, alloc) =
     (if n = 0 then (hu, alloc)
      else mark_hosts (j + 1) (n - 1) (hu[j := True], set_insert j alloc))"
  by (cases n) simp_all

lemmas alloc_eval = allocate_hosts_for_job_def submitted_job_def to_uint8_def Let_def
  set_insert_def free_run_def mark_hosts_unfold upt_rec

theorem C3_allocation_witness:
  "allocate_hosts_for_job 4 [False, True, False, False] (submitted_job ''j'' 2 10 0)
     = Some ([False, True, True, True], (submitted_job ''j'' 2 10 0)\<lparr> allocated_hosts := [2, 3] \<rparr>)
   \<and> free_run [False, True, False, False] 2 2
   \<and> first_hosts 2 [0, 2, 3] = Inr [0, 2]
   \<and> available_res (allocate_and_launch \<lparr> job_id = ''j1'', nb_hosts = 2, walltime = 10 \<rparr> 0
        (eb_run [(0, [SimulationBegins 3])])) = [2]"
  using C3_allocation [where job = "submitted_job ''j'' 2 10 0" and nb_platform = 4
      and hu = "[False, True, False, False]" and n = 2 and available = "[0, 2, 3]"
      and j = "\<lparr> job_id = ''j1'', nb_hosts = 2, walltime = 10 \<rparr>" and t = 0
      and s = "eb_run [(0, [SimulationBegins 3])]"]
  by (simp add: alloc_eval eb_eval first_hosts_def)

text \<open>
  With hosts 0, 2 and 3 free a job of width 2 gets hosts 2 and 3, not the two lowest
  free ids 0 and 2; with hosts 0 and 2 free of three, two hosts are free and the
  allocation of width 2 fails.
\<close>

theorem C3_allocation_counterexample:
  "allocate_hosts_for_job 4 [False, True, False, False] (submitted_job ''j'' 2 10 0)
     = Some ([False, True, True, True], (submitted_job ''j'' 2 10 0)\<lparr> allocated_hosts := [2, 3] \<rparr>)
   \<and> allocate_hosts_for_job 3 [False, True, False] (submitted_job ''j'' 2 10 0) = None
   \<and> length (filter (\<lambda>u. \<not> u) [False, True, False]) = 2"
  by (simp add: alloc_eval)

section \<open>Properties of the expected start\<close>

lemma fold_min_expected_end:
  "fold (\<lambda>(jid, job) t. min t (expected_end_time job)) running a
     = Min (insert a ((\<lambda>(jid, job). expected_end_time job) ` set running))"
proof (induction running arbitrary: a)
  case Nil
  then show ?case by simp
next
  case (Cons x xs)
  obtain jid job where x: "x = (jid, job)" by (cases x)
  have fin: "finite ((\<lambda>(jid, job). expected_end_time job) ` set xs)" by simp
  have "fold (\<lambda>(jid, job) t. min t (expected_end_time job)) (x # xs) a
          = Min (insert (min a (expected_end_time job))
                   ((\<lambda>(jid, job). expected_end_time job) ` set xs))"
    using Cons.IH [of "min a (expected_end_time job)"] by (simp add: x)
  also have "\<dots> = Min (insert a (insert (expected_end_time job)
                   ((\<lambda>(jid, job). expected_end_time job) ` set xs)))"
  proof (cases "set xs = {}")
    case True
    then show ?thesis by (simp add: min.commute)
  next
    case False
    then have ne: "((\<lambda>(jid, job). expected_end_time job) ` set xs) \<noteq> {}" by simp
    show ?thesis using fin ne by (simp add: min.assoc)
  qed
  finally show ?case by (simp add: x)
qed

lemma start_job_reservation [simp]:
  "reservation_end_time (start_job job t s) = reservation_end_time s"
  "has_active_reservation (start_job job t s) = has_active_reservation s"
  by (simp_all add: start_job_def)

lemma backfill_loop_reservation:
  "reservation_end_time (snd (backfill_loop t cands n a s)) = reservation_end_time s
   \<and> has_active_reservation (snd (backfill_loop t cands n a s)) = has_active_reservation s"
proof (induction cands arbitrary: n a s)
  case Nil
  then show ?case by simp
next
  case (Cons c cands)
  then show ?case by (auto simp: Let_def split: option.splits)
qed

lemma try_schedule_jobs_reservation_end:
  assumes q: "jobs_r s = first_job # rest"
    and hosts: "int (nb_hosts first_job) > free_hosts_count (host_used s)"
    and window: "energy_budget_active s" "budget_start_time_r s \<le> now" "now \<le> budget_end_time s"
    and energy: "estimate_job_energy first_job \<le> available_energy s"
    and later: "now < resource_start_time now (free_hosts_count (host_used s)) first_job
                       (running_jobs_r s)"
  shows "reservation_end_time (snd (try_schedule_jobs now s))
           = resource_start_time now (free_hosts_count (host_used s)) first_job (running_jobs_r s)
         \<and> has_active_reservation (snd (try_schedule_jobs now s))"
proof -
  let ?est = "resource_start_time now (free_hosts_count (host_used s)) first_job (running_jobs_r s)"
  have e: "expected_start_time now (free_hosts_count (host_used s)) first_job s = ?est"
    using window energy by (simp add: expected_start_time_def Let_def)
  have r: "reservation_end_time (reserve_energy_reducePC first_job ?est now s) = ?est"
      "has_active_reservation (reserve_energy_reducePC first_job ?est now s)"
    using window later by (simp_all add: reserve_energy_reducePC_def Let_def)
  show ?thesis
    using q hosts e r later
    by (simp add: try_schedule_jobs_def Let_def backfill_loop_reservation)
qed


lemma replicate_unfold:
  "replicate n x = (if n = 0 then [] else x # replicate (n - 1) x)"
  by (cases n) simp_all

lemmas rpc_run_eval = rpc_run_def rpc_take_decisions_def try_schedule_jobs_def
  update_available_energy_def rpc_init_def submitted_job_def to_uint8_def Let_def
  free_hosts_count_def start_job_def restore_rate_def expected_start_time_def
  resource_start_time_def earliest_resource_time_def has_enough_energy_r_def
  estimate_job_energy_def P_comp_est_def P_comp_def P_idle_est_def running_hosts_count_def
  allocate_hosts_for_job_def reserve_energy_reducePC_def set_insert_def
  mark_hosts_unfold replicate_unfold

lemma reserve_first_job_d_end:
  assumes window: "energy_budget_active d" "budget_start_time_r d \<le> now"
      "now \<le> budget_end_time d"
    and energy: "estimate_job_energy pivot \<le> available_energy d"
    and later: "now < resource_start_time now available_hosts pivot (running_jobs_r d)"
  shows "reservation_end_time (reserve_first_job_d now available_hosts pivot d)
           = min (now + 5) (resource_start_time now available_hosts pivot (running_jobs_r d))
         \<and> has_active_reservation (reserve_first_job_d now available_hosts pivot d)"
proof -
  have "expected_start_time_d now available_hosts pivot d
          = min (now + 5) (resource_start_time now available_hosts pivot (running_jobs_r d))"
    using energy by (simp add: expected_start_time_d_def Let_def min_def)
  then show ?thesis
    using window later
    by (simp add: reserve_first_job_d_def reserve_energy_reducePC_d_def Let_def min_def)
qed

text \<open>
  Claim C9, as the code has it.  In both reducePC units the resource part of the pivot's
  expected start is \<open>now\<close> when the pivot's width is at most the number of free hosts
  or no job is running; otherwise it is the least of \<open>now + 1000\<close> and the projected
  ends of the running jobs, whether or not the hosts free by then suffice.  When the
  pivot lacks hosts but not energy and that time is after \<open>now\<close>, \<open>try_schedule_jobs\<close> of
  the second unit installs a reservation that ends exactly then.  The third unit caps
  the expected start at \<open>now + 5\<close> before it reserves: the expected start never exceeds
  \<open>now + 5\<close>, it is the lesser of \<open>now + 5\<close> and the resource part when the pivot's energy
  is at hand, and the reservation made then ends at that lesser time.
\<close>

theorem C9_resource_time:
  "resource_start_time now available_hosts pivot running =
     (if int (nb_hosts pivot) \<le> available_hosts \<or> running = [] then now
      else Min (insert (now + 1000) ((\<lambda>(jid, job). expected_end_time job) ` set running)))
   \<and> (jobs_r s = pivot # rest
        \<and> int (nb_hosts pivot) > free_hosts_count (host_used s)
        \<and> energy_budget_active s \<and> budget_start_time_r s \<le> now \<and> now \<le> budget_end_time s
        \<and> estimate_job_energy pivot \<le> available_energy s
        \<and> now < resource_start_time now (free_hosts_count (host_used s)) pivot (running_jobs_r s)
      \<longrightarrow> reservation_end_time (snd (try_schedule_jobs now s))
            = resource_start_time now (free_hosts_count (host_used s)) pivot (running_jobs_r s)
          \<and> has_active_reservation (snd (try_schedule_jobs now s)))
   \<and> expected_start_time_d now available_hosts pivot d \<le> now + 5
   \<and> (estimate_job_energy pivot \<le> available_energy d \<longrightarrow>
        expected_start_time_d now available_hosts pivot d
          = min (now + 5) (resource_start_time now available_hosts pivot (running_jobs_r d)))
   \<and> (energy_budget_active d \<and> budget_start_time_r d \<le> now \<and> now \<le> budget_end_time d
        \<and> estimate_job_energy pivot \<le> available_energy d
        \<and> now < resource_start_time now available_hosts pivot (running_jobs_r d)
      \<longrightarrow> reservation_end_time (reserve_first_job_d now available_hosts pivot d)
            = min (now + 5) (resource_start_time now available_hosts pivot (running_jobs_r d))
          \<and> has_active_reservation (reserve_first_job_d now available_hosts pivot d))"
proof -
  have a: "resource_start_time now available_hosts pivot running =
     (if int (nb_hosts pivot) \<le> available_hosts \<or> running = [] then now
      else Min (insert (now + 1000) ((\<lambda>(jid, job). expected_end_time job) ` set running)))"
    by (simp add: resource_start_time_def earliest_resource_time_def fold_min_expected_end)
  have b: "jobs_r s = pivot # rest
        \<and> int (nb_hosts pivot) > free_hosts_count (host_used s)
        \<and> energy_budget_active s \<and> budget_start_time_r s \<le> now \<and> now \<le> budget_end_time s
        \<and> estimate_job_energy pivot \<le> available_energy s
        \<and> now < resource_start_time now (free_hosts_count (host_used s)) pivot (running_jobs_r s)
      \<longrightarrow> reservation_end_time (snd (try_schedule_jobs now s))
            = resource_start_time now (free_hosts_count (host_used s)) pivot (running_jobs_r s)
          \<and> has_active_reservation (snd (try_schedule_jobs now s))"
    using try_schedule_jobs_reservation_end [of s pivot rest now] by simp
  have c: "expected_start_time_d now available_hosts pivot d \<le> now + 5"
    by (simp add: expected_start_time_d_def Let_def)
  have e: "estimate_job_energy pivot \<le> available_energy d \<longrightarrow>
        expected_start_time_d now available_hosts pivot d
          = min (now + 5) (resource_start_time now available_hosts pivot (running_jobs_r d))"
    by (simp add: expected_start_time_d_def Let_def min_def)
  have f: "energy_budget_active d \<and> budget_start_time_r d \<le> now \<and> now \<le> budget_end_time d
        \<and> estimate_job_energy pivot \<le> available_energy d
        \<and> now < resource_start_time now available_hosts pivot (running_jobs_r d)
      \<longrightarrow> reservation_end_time (reserve_first_job_d now available_hosts pivot d)
            = min (now + 5) (resource_start_time now available_hosts pivot (running_jobs_r d))
          \<and> has_active_reservation (reserve_first_job_d now available_hosts pivot d)"
    using reserve_first_job_d_end [of d now pivot available_hosts] by simp
  show ?thesis using a b c e f by blast
qed

theorem C9_resource_time_witness:
  "resource_start_time 0 0 (submitted_job ''p'' 4 100 0)
       [running_at ''a'' 1 10 0 [0], running_at ''b'' 3 20 0 [1, 2, 3]] = 10
   \<and> rpc_run c9_trace = snd (try_schedule_jobs 110 c9_state)
   \<and> reservation_end_time (rpc_run c9_trace) = 140
   \<and> resource_start_time 0 0 (submitted_job ''j1'' 1 1 0) (running_jobs_r pivot_state_d) = 10
   \<and> expected_start_time_d 0 0 (submitted_job ''j1'' 1 1 0) pivot_state_d = 5
   \<and> reservation_end_time (reserve_first_job_d 0 0 (submitted_job ''j1'' 1 1 0) pivot_state_d)
       = 5"
proof -
  have st: "jobs_r c9_state = [submitted_job ''j1'' 2 10 110, submitted_job ''j2'' 1 5 110,
                                submitted_job ''j3'' 1 50 110]"
      "free_hosts_count (host_used c9_state) = 1"
      "energy_budget_active c9_state" "budget_start_time_r c9_state \<le> 110"
      "110 \<le> budget_end_time c9_state"
      "estimate_job_energy (submitted_job ''j1'' 2 10 110) \<le> available_energy c9_state"
      "resource_start_time 110 1 (submitted_job ''j1'' 2 10 110) (running_jobs_r c9_state) = 140"
    by (simp_all add: c9_state_def c9_trace_def c9_events_def rpc_run_eval)
  have run: "rpc_run c9_trace = snd (try_schedule_jobs 110 c9_state)"
    by (simp add: c9_state_def c9_trace_def c9_events_def rpc_run_eval)
  have "reservation_end_time (snd (try_schedule_jobs 110 c9_state)) = 140"
    using C9_resource_time [where s = c9_state and now = 110
        and rest = "[submitted_job ''j2'' 1 5 110, submitted_job ''j3'' 1 50 110]"
        and pivot = "submitted_job ''j1'' 2 10 110"] st
    by (simp add: submitted_job_def to_uint8_def)
  moreover have "resource_start_time 0 0 (submitted_job ''p'' 4 100 0)
       [running_at ''a'' 1 10 0 [0], running_at ''b'' 3 20 0 [1, 2, 3]] = 10"
    using C9_resource_time [where now = 0 and available_hosts = 0
        and pivot = "submitted_job ''p'' 4 100 0"
        and running = "[running_at ''a'' 1 10 0 [0], running_at ''b'' 3 20 0 [1, 2, 3]]"]
    by (simp add: running_at_def submitted_job_def to_uint8_def)
  moreover have "resource_start_time 0 0 (submitted_job ''j1'' 1 1 0)
         (running_jobs_r pivot_state_d) = 10
       \<and> expected_start_time_d 0 0 (submitted_job ''j1'' 1 1 0) pivot_state_d = 5
       \<and> reservation_end_time
           (reserve_first_job_d 0 0 (submitted_job ''j1'' 1 1 0) pivot_state_d) = 5"
  proof -
    have d: "energy_budget_active pivot_state_d" "budget_start_time_r pivot_state_d \<le> 0"
        "0 \<le> budget_end_time pivot_state_d"
        "estimate_job_energy (submitted_job ''j1'' 1 1 0) \<le> available_energy pivot_state_d"
        "resource_start_time 0 0 (submitted_job ''j1'' 1 1 0) (running_jobs_r pivot_state_d)
           = 10"
      by (simp_all add: pivot_state_d_def dl_eval submitted_job_def to_uint8_def
          estimate_job_energy_def P_comp_est_def resource_start_time_def
          earliest_resource_time_def running_at_def)
    show ?thesis
      using C9_resource_time [where now = 0 and available_hosts = 0
          and pivot = "submitted_job ''j1'' 1 1 0" and d = pivot_state_d] d
      by simp
  qed
  ultimately show ?thesis using run by simp
qed

text \<open>
  No host free, job \<open>a\<close> on one host until 10 and job \<open>b\<close> on three hosts until 20, a
  pivot of width 4: the code's estimate is 10, when one host is free; four hosts are
  free only at 20.
\<close>

theorem C9_resource_time_counterexample:
  "resource_start_time 0 0 (submitted_job ''p'' 4 100 0)
       [running_at ''a'' 1 10 0 [0], running_at ''b'' 3 20 0 [1, 2, 3]] = 10
   \<and> spec_hosts_free_by 0 [running_at ''a'' 1 10 0 [0], running_at ''b'' 3 20 0 [1, 2, 3]] 10 = 1
   \<and> spec_hosts_free_by 0 [running_at ''a'' 1 10 0 [0], running_at ''b'' 3 20 0 [1, 2, 3]] 20 = 4
   \<and> nb_hosts (submitted_job ''p'' 4 100 0) = 4"
  by (simp add: resource_start_time_def earliest_resource_time_def running_at_def
      submitted_job_def to_uint8_def spec_hosts_free_by_def)

text \<open>
  The scheduler of \<open>part_001\<close> adds the current number of free hosts at every point of
  its timeline: with hosts 2 and 3 free and a job on hosts 0 and 1 until 50, it predicts
  that a job of width 3 starts now.
\<close>

lemma predict_job_start_time_example:
  "predict_job_start_time 0 [2, 3]
     [\<lparr> jc_job_id = ''a'', completion_time = 50, resources = [0, 1] \<rparr>] 3 = 0"
  by (simp add: predict_job_start_time_def find_available_resources_def)

section \<open>Backfilling against the reservation\<close>





lemma mb_reserve [simp]: "mb_r (reserve_energy_reducePC job st t s) = mb_r s"
  by (simp add: reserve_energy_reducePC_def Let_def)





section \<open>The power cap\<close>

lemmas pc_eval = pc_take_decisions_def pc_schedule_def pc_init_def pc_launch_def
  first_hosts_def platform_power_def P_COMP_A_def P_IDLE_A_def P_COMP_M_def to_uint8_def
  sub_size_t_def set_insert_def insert_all_def Let_def upt_rec

text \<open>
  Claim C1 at an input where the power-capped scheduler departs from it.  Four hosts;
  \<open>j1\<close> (width 3) and \<open>j2\<close> (width 2, shorter) arrive in one message.  The backfilling
  loop launches \<open>j2\<close> on hosts 0 and 1 and leaves hosts 2 and 3 free; the block for the
  first job then runs on the flag computed before the loop and takes three hosts from
  the two that are free, reading past the end of the free set: no allocation of three
  hosts disjoint from that of \<open>j2\<close> exists among the four.
\<close>

theorem C1_powercap_failing_input:
  "\<exists>s kept s1.
     foldl pc_event pc_init
       [SimulationBegins 4, JobSubmitted ''j1'' 3 10, JobSubmitted ''j2'' 2 5] = s
     \<and> nb_hosts (hd (jobs_p s)) = 3
     \<and> pc_backfill (tl (jobs_p s)) s = Inr (kept, s1)
     \<and> job_allocations_p s1 ''j2'' = Some [0, 1]
     \<and> available_res_p s1 = [2, 3]
     \<and> first_hosts 3 (available_res_p s1) = Inl Iterator_past_end
     \<and> pc_schedule s = Inl Iterator_past_end"
  by (simp add: pc_eval)

text \<open>
  Claim C2 at an input where the code departs from it.  Four hosts; \<open>j1\<close> (width 3) and
  \<open>j2\<close> (width 2, shorter) arrive together.  \<open>first_job_can_run\<close> is computed while
  four hosts are free; the backfilling loop then launches \<open>j2\<close> on hosts 0 and 1; the
  block for the first job still runs and reads three hosts from a free set of two.  With
  a budget of 60 percent and two jobs of width 1, both are launched on the power computed
  before the loop: the estimate kept is 475.74 W, the limit 487.488 W, and the platform
  power with two busy hosts is 571.48 W.
\<close>

theorem C2_powercap_failing_input:
  "pc_run_from pc_init
     [(0, [SimulationBegins 4, JobSubmitted ''j1'' 3 10, JobSubmitted ''j2'' 2 5])]
     = Inl Iterator_past_end
   \<and> (\<exists>s. pc_run_from (pc_init\<lparr> pourcentage_budget_p := 0.6 \<rparr>)
             [(0, [SimulationBegins 4, JobSubmitted ''j1'' 1 10, JobSubmitted ''j2'' 1 5])]
             = Inr s
          \<and> mb_p s = [ExecuteJob ''j2'' [0], ExecuteJob ''j1'' [1]]
          \<and> current_power s = 475.74 \<and> power_limit s = 487.488
          \<and> platform_power (platform_nb_hosts_p s) (available_res_p s) = 571.48)"
  by (simp add: pc_eval)

end
